theory Spec2Isabelle
  imports Main "HOL-Library.AList"
begin

section \<open>Strings\<close>

text \<open>
  Python strings are modelled as \<open>string\<close>, a character standing for a code point
  below 256. The functions below are \<open>str.lower\<close>, \<open>str.startswith\<close>,
  \<open>str.endswith\<close> and the substring test \<open>sub in s\<close> on such strings; the
  letters that \<open>str.lower\<close> changes are A to Z and the code points 0xC0 to 0xDE
  without 0xD7.
\<close>

definition lower_char :: "char \<Rightarrow> char" where
  "lower_char c =
     (case map_of
             (zip (''ABCDEFGHIJKLMNOPQRSTUVWXYZ''
                     @ [CHR 0xC0, CHR 0xC1, CHR 0xC2, CHR 0xC3, CHR 0xC4, CHR 0xC5, CHR 0xC6,
                        CHR 0xC7, CHR 0xC8, CHR 0xC9, CHR 0xCA, CHR 0xCB, CHR 0xCC, CHR 0xCD,
                        CHR 0xCE, CHR 0xCF, CHR 0xD0, CHR 0xD1, CHR 0xD2, CHR 0xD3, CHR 0xD4,
                        CHR 0xD5, CHR 0xD6, CHR 0xD8, CHR 0xD9, CHR 0xDA, CHR 0xDB, CHR 0xDC,
                        CHR 0xDD, CHR 0xDE])
                  (''abcdefghijklmnopqrstuvwxyz''
                     @ [CHR 0xE0, CHR 0xE1, CHR 0xE2, CHR 0xE3, CHR 0xE4, CHR 0xE5, CHR 0xE6,
                        CHR 0xE7, CHR 0xE8, CHR 0xE9, CHR 0xEA, CHR 0xEB, CHR 0xEC, CHR 0xED,
                        CHR 0xEE, CHR 0xEF, CHR 0xF0, CHR 0xF1, CHR 0xF2, CHR 0xF3, CHR 0xF4,
                        CHR 0xF5, CHR 0xF6, CHR 0xF8, CHR 0xF9, CHR 0xFA, CHR 0xFB, CHR 0xFC,
                        CHR 0xFD, CHR 0xFE])) c of
        Some d \<Rightarrow> d
      | None \<Rightarrow> c)"

definition lower :: "string \<Rightarrow> string" where
  "lower s = map lower_char s"

fun startswith :: "string \<Rightarrow> string \<Rightarrow> bool" where
  "startswith s [] = True"
| "startswith [] (p # ps) = False"
| "startswith (c # cs) (p # ps) = (c = p \<and> startswith cs ps)"

definition endswith :: "string \<Rightarrow> string \<Rightarrow> bool" where
  "endswith s p = startswith (rev s) (rev p)"

fun str_in :: "string \<Rightarrow> string \<Rightarrow> bool" where
  "str_in sub [] = (sub = [])"
| "str_in sub (c # cs) = (startswith (c # cs) sub \<or> str_in sub cs)"

section \<open>Platform resolution (sdk/utils.py)\<close>

text \<open>
  The three strings \<open>get_platform_name\<close> reads from the interpreter:
  \<open>platform.system()\<close>, \<open>platform.machine()\<close> and \<open>platform.processor()\<close>.
\<close>

record host =
  system :: string
  machine :: string
  processor :: string

definition get_platform_name :: "host \<Rightarrow> string" where
  "get_platform_name h =
     (let sys = lower (system h); architecture = lower (machine h) in
      if sys = ''linux'' then
        (if architecture \<in> set [''x86_64'', ''amd64''] then ''linux-x86_64''
         else if architecture \<in> set [''aarch64'', ''arm64''] then ''linux-aarch64''
         else ''linux-x86_64'')
      else if sys = ''darwin'' then
        (if architecture \<in> set [''arm64'', ''aarch64'']
            \<or> str_in ''apple'' (lower (processor h))
         then ''macosx-arm64'' else ''macosx-x86_64'')
      else if sys = ''windows'' then ''win-amd64''
      else ''unknown'')"

definition is_windows :: "host \<Rightarrow> bool" where
  "is_windows h = startswith (get_platform_name h) ''win''"

definition is_macos :: "host \<Rightarrow> bool" where
  "is_macos h = startswith (get_platform_name h) ''macosx''"

definition is_linux :: "host \<Rightarrow> bool" where
  "is_linux h = startswith (get_platform_name h) ''linux''"

definition platform_tags :: "string list" where
  "platform_tags =
     [''linux-x86_64'', ''linux-aarch64'', ''macosx-x86_64'', ''macosx-arm64'',
      ''win-amd64'', ''unknown'']"

section \<open>URL parsing (urllib.parse of the Python standard library)\<close>

text \<open>
  The SDK reads two components of \<open>urlparse(url)\<close>: the scheme and the path. The
  standard library is not part of the repository; \<open>py_urlparse\<close> below follows
  CPython's \<open>urlsplit\<close> and \<open>urlparse\<close> on ASCII strings: leading C0 control
  characters and spaces are stripped, tab, CR and LF are removed, a scheme is split off
  when the text before the first colon starts with a letter and consists of letters,
  digits, plus, minus and dot, a network location is split off after two slashes, the
  fragment and the query are cut at the first hash and question mark, and the
  parameters of the last path segment are cut at its first semicolon for the schemes
  that use parameters. \<open>None\<close> stands for the \<open>ValueError\<close> raised for a network
  location with an unbalanced square bracket. The tool code itself takes the parser
  from its environment (field \<open>urlparse\<close> below), so that every general statement
  holds for any behaviour of the library.
\<close>

record parsed_url =
  url_scheme :: string
  url_path :: string

definition is_ascii_alpha :: "char \<Rightarrow> bool" where
  "is_ascii_alpha c = (c \<in> set ''abcdefghijklmnopqrstuvwxyzABCDEFGHIJKLMNOPQRSTUVWXYZ'')"

definition is_digit :: "char \<Rightarrow> bool" where
  "is_digit c = (c \<in> set ''0123456789'')"

definition is_scheme_char :: "char \<Rightarrow> bool" where
  "is_scheme_char c = (is_ascii_alpha c \<or> is_digit c \<or> c \<in> set ''+-.'')"

definition is_c0_or_space :: "char \<Rightarrow> bool" where
  "is_c0_or_space c = ((of_char c :: nat) \<le> 32)"

definition is_unsafe_url_byte :: "char \<Rightarrow> bool" where
  "is_unsafe_url_byte c = (c \<in> set [CHR 0x09, CHR 0x0D, CHR 0x0A])"

definition uses_params :: "string list" where
  "uses_params =
     [[], ''ftp'', ''hdl'', ''prospero'', ''http'', ''imap'', ''https'', ''shttp'', ''rtsp'',
      ''rtsps'', ''rtspu'', ''sip'', ''sips'', ''mms'', ''sftp'', ''tel'']"

definition split_scheme :: "string \<Rightarrow> string \<times> string" where
  "split_scheme url =
     (let pre = takeWhile (\<lambda>c. c \<noteq> CHR '':'') url in
      if CHR '':'' \<in> set url \<and> pre \<noteq> [] \<and> is_ascii_alpha (hd url)
         \<and> list_all is_scheme_char pre
      then (lower pre, drop (Suc (length pre)) url)
      else ([], url))"

definition splitnetloc :: "string \<Rightarrow> string \<times> string" where
  "splitnetloc url =
     (if take 2 url = ''//''
      then (takeWhile (\<lambda>c. c \<notin> set ''/?#'') (drop 2 url),
            dropWhile (\<lambda>c. c \<notin> set ''/?#'') (drop 2 url))
      else ([], url))"

definition splitparams :: "string \<Rightarrow> string" where
  "splitparams url =
     (let last_segment = rev (takeWhile (\<lambda>c. c \<noteq> CHR ''/'') (rev url));
          before = take (length url - length last_segment) url
      in before @ takeWhile (\<lambda>c. c \<noteq> CHR '';'') last_segment)"

definition py_urlparse :: "string \<Rightarrow> parsed_url option" where
  "py_urlparse url0 =
     (let url1 = filter (\<lambda>c. \<not> is_unsafe_url_byte c) (dropWhile is_c0_or_space url0);
          (sch, url2) = split_scheme url1;
          (netloc, url3) = splitnetloc url2
      in if (CHR ''['' \<in> set netloc \<and> CHR '']'' \<notin> set netloc)
            \<or> (CHR '']'' \<in> set netloc \<and> CHR ''['' \<notin> set netloc)
         then None
         else (let url4 = takeWhile (\<lambda>c. c \<notin> set ''#?'') url3;
                   url5 = (if sch \<in> set uses_params then splitparams url4 else url4)
               in Some \<lparr>url_scheme = sch, url_path = url5\<rparr>))"

section \<open>The tool's environment\<close>

text \<open>
  Everything a tool reads from outside its own code: the host's platform strings, the
  URL parser, the toolkit and tool names, the toolkits root directory, the toolkit's
  configuration document (\<open>toolkit.json\<close>), the \<open>cli_progress\<close> flag of the tool, the
  behaviour of the downloader for each URL, whether the Hugging Face host answers the
  reachability probe, the exit code of the \<open>xattr\<close> command (\<open>None\<close> when it
  cannot be launched), and the size \<open>os.path.getsize\<close> gives for the directory at a
  path.
\<close>

record tool_config =
  description :: "string option"
  binaries :: "(string \<times> string) list option"
  resources :: "(string \<times> string list) list option"

record toolkit_document =
  display_name :: "string option"
  tools :: "(string \<times> tool_config) list"

text \<open>
  What one transfer of the downloader leaves behind: the size of the file it wrote at
  the destination (\<open>None\<close> when it wrote nothing) and its \<open>Failed\<close> flag.
\<close>

record dl_outcome =
  written :: "nat option"
  dl_failed :: bool

record env =
  platform :: host
  urlparse :: "string \<Rightarrow> parsed_url option"
  toolkit :: string
  tool_name :: string
  toolkits_path :: string
  toolkit_doc :: "toolkit_document option"
  cli_progress :: bool
  fetch :: "string \<Rightarrow> dl_outcome"
  hf_reachable :: bool
  xattr_rc :: "int option"
  dir_size :: "string list \<Rightarrow> nat"

section \<open>Shell argument escaping (BaseTool._escape_shell_arg)\<close>

text \<open>
  \<open>str.replace old new\<close> for a non-empty \<open>old\<close>: occurrences are replaced from the
  left and do not overlap. The first argument counts the characters of a matched
  occurrence still to be skipped.
\<close>

fun replace_from :: "nat \<Rightarrow> string \<Rightarrow> string \<Rightarrow> string \<Rightarrow> string" where
  "replace_from k old new [] = []"
| "replace_from (Suc k) old new (c # cs) = replace_from k old new cs"
| "replace_from 0 old new (c # cs) =
     (if startswith (c # cs) old then new @ replace_from (length old - 1) old new cs
      else c # replace_from 0 old new cs)"

definition replace :: "string \<Rightarrow> string \<Rightarrow> string \<Rightarrow> string" where
  "replace old new s =
     (if old = [] then new @ concat (map (\<lambda>c. c # new) s) else replace_from 0 old new s)"

text \<open>
  The character class of the POSIX branch,
  \<^verbatim>\<open>["\s\'$`\\(){}[\]|&;<>*?!]\<close>: below 256, \<open>\s\<close> of a string pattern is the
  code points 9 to 13, 28 to 31, the space, 0x85 and 0xA0.
\<close>

definition is_space_class :: "char \<Rightarrow> bool" where
  "is_space_class c =
     (c \<in> set [CHR 0x09, CHR 0x0A, CHR 0x0B, CHR 0x0C, CHR 0x0D,
                CHR 0x1C, CHR 0x1D, CHR 0x1E, CHR 0x1F, CHR 0x20, CHR 0x85, CHR 0xA0])"

definition is_posix_special :: "char \<Rightarrow> bool" where
  "is_posix_special c =
     (c = CHR 0x22 \<or> is_space_class c \<or> c = CHR 0x27 \<or> c = CHR ''$'' \<or> c = CHR 0x60
      \<or> c = CHR 0x5C \<or> c \<in> set ''(){}[]|&;<>*?!'')"

text \<open>\<open>re.sub\<close> with that class and the replacement \<^verbatim>\<open>\\\1\<close>.\<close>

fun re_sub_escape :: "string \<Rightarrow> string" where
  "re_sub_escape [] = []"
| "re_sub_escape (c # cs) =
     (if is_posix_special c then CHR 0x5C # c # re_sub_escape cs else c # re_sub_escape cs)"

definition escape_shell_arg :: "env \<Rightarrow> string \<Rightarrow> string" where
  "escape_shell_arg e arg =
     (case urlparse e arg of
        Some parsed \<Rightarrow>
          if url_scheme parsed \<noteq> [] then arg
          else if is_windows (platform e) then
            (if CHR '' '' \<in> set arg \<or> CHR 0x22 \<in> set arg \<or> CHR ''&'' \<in> set arg
                \<or> CHR ''|'' \<in> set arg
             then [CHR 0x22] @ replace [CHR 0x22] [CHR 0x5C, CHR 0x22] arg @ [CHR 0x22]
             else arg)
          else re_sub_escape arg
      | None \<Rightarrow>
          if is_windows (platform e) then
            (if CHR '' '' \<in> set arg \<or> CHR 0x22 \<in> set arg \<or> CHR ''&'' \<in> set arg
                \<or> CHR ''|'' \<in> set arg
             then [CHR 0x22] @ replace [CHR 0x22] [CHR 0x5C, CHR 0x22] arg @ [CHR 0x22]
             else arg)
          else re_sub_escape arg)"

section \<open>Errors\<close>

text \<open>
  The SDK raises plain Python exceptions whose message is built from a fixed template.
  Each template is a constructor that carries the values interpolated into the
  message; an exception wrapped into the message of another one is carried whole.
\<close>

datatype error =
    ConfigNotFound string
  | ToolNotFound string
  | NoBinaryUrl string
  | NoResourceUrls string
  | UrlValueError
  | FileNotFound string
  | IsADirectory string
  | DownloadFailed
  | EmptyDownload
  | FailedToDownloadBinary error
  | FailedToDownloadBinaryNamed string error
  | ResourceFileDownloadFailed string error

section \<open>The toolkit's bins directory\<close>

text \<open>
  The state a tool changes: the toolkit's \<open>bins\<close> directory (\<open>None\<close> while it does
  not exist), the keys of the status events reported so far, and the URLs handed to
  the downloader so far. The directory is the list of its entries in the order
  \<open>os.listdir\<close> gives them. An entry is a file with its size and permission bits,
  or a directory (a resource bundle) with the names and sizes of its files. Paths are
  the lists of the components given to \<open>os.path.join\<close>, and a name is looked up in a
  directory as it is written.
\<close>

datatype entry = File nat nat | Dir "(string \<times> nat) list"

record world =
  bins :: "(string \<times> entry) list option"
  events :: "string list"
  transfers :: "string list"

definition report :: "string \<Rightarrow> world \<Rightarrow> world" where
  "report k w = w\<lparr>events := events w @ [k]\<rparr>"

definition bins_path :: "env \<Rightarrow> string list" where
  "bins_path e = [toolkits_path e, toolkit e, ''bins'']"

definition bins_lookup :: "world \<Rightarrow> string \<Rightarrow> entry option" where
  "bins_lookup w name = (case bins w of None \<Rightarrow> None | Some es \<Rightarrow> map_of es name)"

definition makedirs_bins :: "world \<Rightarrow> world" where
  "makedirs_bins w = (case bins w of None \<Rightarrow> w\<lparr>bins := Some []\<rparr> | Some es \<Rightarrow> w)"

text \<open>The downloader creates files with the permission bits 0o644 (420).\<close>

definition write_file :: "string \<Rightarrow> nat \<Rightarrow> world \<Rightarrow> world" where
  "write_file name n w =
     (case bins w of
        None \<Rightarrow> w
      | Some es \<Rightarrow>
          (case map_of es name of
             Some (Dir cs) \<Rightarrow> w
           | _ \<Rightarrow> w\<lparr>bins := Some (AList.update name (File n 420) es)\<rparr>))"

definition os_chmod :: "string \<Rightarrow> nat \<Rightarrow> world \<Rightarrow> error + world" where
  "os_chmod name m w =
     (case bins_lookup w name of
        None \<Rightarrow> Inl (FileNotFound name)
      | Some (File n old) \<Rightarrow>
          Inr (w\<lparr>bins := map_option (AList.update name (File n m)) (bins w)\<rparr>)
      | Some (Dir cs) \<Rightarrow> Inr w)"

definition os_remove :: "string \<Rightarrow> world \<Rightarrow> error + world" where
  "os_remove name w =
     (case bins_lookup w name of
        None \<Rightarrow> Inl (FileNotFound name)
      | Some (Dir cs) \<Rightarrow> Inl (IsADirectory name)
      | Some (File n m) \<Rightarrow> Inr (w\<lparr>bins := map_option (AList.delete name) (bins w)\<rparr>))"

text \<open>
  \<open>not os.path.exists(p) or os.path.getsize(p) == 0\<close> for an entry of the bins
  directory.
\<close>

definition missing_or_empty :: "world \<Rightarrow> string \<Rightarrow> bool" where
  "missing_or_empty w name =
     (case bins_lookup w name of
        None \<Rightarrow> True
      | Some (File n m) \<Rightarrow> n = 0
      | Some (Dir cs) \<Rightarrow> False)"

definition resource_lookup :: "world \<Rightarrow> string \<Rightarrow> string \<Rightarrow> nat option" where
  "resource_lookup w rname fname =
     (case bins_lookup w rname of Some (Dir cs) \<Rightarrow> map_of cs fname | _ \<Rightarrow> None)"

definition makedirs_resource :: "string \<Rightarrow> world \<Rightarrow> world" where
  "makedirs_resource rname w =
     (let w1 = makedirs_bins w in
      case bins_lookup w1 rname of
        None \<Rightarrow> w1\<lparr>bins := map_option (\<lambda>es. es @ [(rname, Dir [])]) (bins w1)\<rparr>
      | Some en \<Rightarrow> w1)"

text \<open>
  The file a transfer writes into a resource directory; a destination that names a
  directory gets no entry of that name.
\<close>

definition write_resource_file :: "string \<Rightarrow> string \<Rightarrow> nat \<Rightarrow> world \<Rightarrow> world" where
  "write_resource_file rname fname n w =
     (if fname \<in> set [[], ''.'', ''..''] then w
      else
        (case bins_lookup w rname of
           Some (Dir cs) \<Rightarrow>
             w\<lparr>bins := map_option (AList.update rname (Dir (AList.update fname n cs))) (bins w)\<rparr>
         | _ \<Rightarrow> w))"

text \<open>
  \<open>os.path.basename\<close>: the text after the last separator; on Windows the backslash
  separates as well.
\<close>

definition is_sep :: "host \<Rightarrow> char \<Rightarrow> bool" where
  "is_sep h c = (c = CHR ''/'' \<or> (is_windows h \<and> c = CHR 0x5C))"

definition basename :: "host \<Rightarrow> string \<Rightarrow> string" where
  "basename h p = rev (takeWhile (\<lambda>c. \<not> is_sep h c) (rev p))"

section \<open>Toolkit configuration (sdk/toolkit\_config.py)\<close>

text \<open>
  \<open>ToolkitConfig.load\<close>: the document is read once and cached by toolkit name; the
  environment's document does not change during a call, so the cache is not modelled.
  A tool entry without any key is an empty dictionary, which the \<open>not tool_config\<close>
  test rejects like a missing one.
\<close>

definition load :: "env \<Rightarrow> string \<Rightarrow> error + tool_config" where
  "load e name =
     (case toolkit_doc e of
        None \<Rightarrow> Inl (ConfigNotFound (toolkit e))
      | Some doc \<Rightarrow>
          (case map_of (tools doc) name of
             None \<Rightarrow> Inl (ToolNotFound name)
           | Some cfg \<Rightarrow>
               if description cfg = None \<and> binaries cfg = None \<and> resources cfg = None
               then Inl (ToolNotFound name)
               else Inr cfg))"

definition get_binary_url :: "host \<Rightarrow> tool_config \<Rightarrow> string option" where
  "get_binary_url h config =
     (let platform_name = get_platform_name h;
          bs = (case binaries config of None \<Rightarrow> [] | Some b \<Rightarrow> b)
      in map_of bs platform_name)"

definition tool_config_name :: "env \<Rightarrow> string" where
  "tool_config_name e = replace ''tool'' [] (lower (tool_name e))"

section \<open>Binary acquisition (BaseTool.get\_binary\_path)\<close>

text \<open>
  \<open>dl.start\<close> followed by the wait for the transfer to end: the URL is recorded and
  the file the transfer wrote, if any, appears at the destination.
\<close>

definition dl_start :: "env \<Rightarrow> string \<Rightarrow> string \<Rightarrow> world \<Rightarrow> world" where
  "dl_start e url name w =
     (let w1 = w\<lparr>transfers := transfers w @ [url]\<rparr> in
      case written (fetch e url) of None \<Rightarrow> w1 | Some n \<Rightarrow> write_file name n w1)"

definition download_binary :: "env \<Rightarrow> string \<Rightarrow> string \<Rightarrow> world \<Rightarrow> (error + unit) \<times> world" where
  "download_binary e url name w =
     (let w1 = report ''bridges.tools.downloading_from_url'' w;
          w2 = (if bins w1 = None then makedirs_bins w1 else w1);
          w3 = dl_start e url name w2
      in if cli_progress e \<and> dl_failed (fetch e url)
         then (Inl (FailedToDownloadBinary DownloadFailed),
               report ''bridges.tools.download_url_failed'' w3)
         else if missing_or_empty w3 name
         then (Inl (FailedToDownloadBinary EmptyDownload),
               report ''bridges.tools.download_url_failed'' w3)
         else (Inr (), w3))"

text \<open>
  The pattern \<^verbatim>\<open>^(.+?)_(\d+\.\d+\.\d+)-(.*?)(?:\.exe)?$\<close> of
  \<open>_delete_older_binary_versions\<close>, matched with \<open>re.match\<close>. \<open>version_tail\<close>
  matches what follows the underscore: three groups of digits separated by dots, a
  minus, and the platform, which is the rest without one final line feed and without
  one final \<open>.exe\<close>; the dot of the pattern matches no line feed. \<open>version_scan\<close> tries
  the underscores from the left, the base name being lazy and not empty.
\<close>

definition digits_then :: "char \<Rightarrow> string \<Rightarrow> (string \<times> string) option" where
  "digits_then sep s =
     (let ds = takeWhile is_digit s; r = dropWhile is_digit s in
      if ds = [] then None
      else (case r of [] \<Rightarrow> None | c # cs \<Rightarrow> if c = sep then Some (ds, cs) else None))"

definition strip_suffix :: "string \<Rightarrow> string \<Rightarrow> string" where
  "strip_suffix suf s = (if endswith s suf then take (length s - length suf) s else s)"

definition version_tail :: "string \<Rightarrow> (string \<times> string) option" where
  "version_tail s =
     (case digits_then (CHR ''.'') s of
        None \<Rightarrow> None
      | Some (major, s1) \<Rightarrow>
          (case digits_then (CHR ''.'') s1 of
             None \<Rightarrow> None
           | Some (minor, s2) \<Rightarrow>
               (case digits_then (CHR ''-'') s2 of
                  None \<Rightarrow> None
                | Some (patch, s3) \<Rightarrow>
                    (let plat = strip_suffix ''.exe'' (strip_suffix [CHR 0x0A] s3) in
                     if CHR 0x0A \<in> set plat then None
                     else Some (major @ ''.'' @ minor @ ''.'' @ patch, plat)))))"

fun version_scan :: "string \<Rightarrow> string \<Rightarrow> (string \<times> string \<times> string) option" where
  "version_scan base [] = None"
| "version_scan base (c # cs) =
     (case (if base \<noteq> [] \<and> c = CHR ''_'' then version_tail cs else None) of
        Some (ver, plat) \<Rightarrow> Some (base, ver, plat)
      | None \<Rightarrow> if c = CHR 0x0A then None else version_scan (base @ [c]) cs)"

definition version_match :: "string \<Rightarrow> (string \<times> string \<times> string) option" where
  "version_match name = version_scan [] name"

text \<open>
  The loop of \<open>_delete_older_binary_versions\<close> over the listing. An exception of
  \<open>os.remove\<close> leaves the loop for the handler around it, which reports a warning.
\<close>

fun prune_loop :: "string \<times> string \<times> string \<Rightarrow> string list \<Rightarrow> world \<Rightarrow> world" where
  "prune_loop new [] w = w"
| "prune_loop new (f # fs) w =
     (case version_match f of
        None \<Rightarrow> prune_loop new fs w
      | Some (file_base_name, file_version, file_platform) \<Rightarrow>
          (case new of (binary_base_name, new_version, plat) \<Rightarrow>
             if file_base_name = binary_base_name \<and> file_platform = plat
                \<and> file_version \<noteq> new_version
             then
               (let w1 = report ''bridges.tools.deleting_old_version'' w in
                case os_remove f w1 of
                  Inl err \<Rightarrow> report ''bridges.tools.cleanup_warning'' w1
                | Inr w2 \<Rightarrow>
                    prune_loop new fs (report ''bridges.tools.old_version_deleted'' w2))
             else prune_loop new fs w))"

definition delete_older_binary_versions :: "string \<Rightarrow> world \<Rightarrow> world" where
  "delete_older_binary_versions new_executable w =
     (case version_match new_executable of
        None \<Rightarrow> w
      | Some new \<Rightarrow>
          (case bins w of
             None \<Rightarrow> w
           | Some es \<Rightarrow> prune_loop new (map fst es) w))"

definition remove_quarantine_attribute :: "env \<Rightarrow> world \<Rightarrow> world" where
  "remove_quarantine_attribute e w =
     (case xattr_rc e of
        None \<Rightarrow> report ''bridges.tools.quarantine_exception'' w
      | Some rc \<Rightarrow>
          if rc = 0 then report ''bridges.tools.quarantine_removed'' w
          else report ''bridges.tools.quarantine_warning'' w)"

definition download_binary_on_demand ::
  "env \<Rightarrow> string \<Rightarrow> string \<Rightarrow> string \<Rightarrow> world \<Rightarrow> (error + unit) \<times> world" where
  "download_binary_on_demand e binary_name binary_url executable w =
     (let w1 = report ''bridges.tools.binary_not_found'' w in
      case download_binary e binary_url executable w1 of
        (Inl err, w2) \<Rightarrow>
          (Inl (FailedToDownloadBinaryNamed binary_name err),
           report ''bridges.tools.download_failed'' w2)
      | (Inr u, w2) \<Rightarrow>
          (let w3 = report ''bridges.tools.binary_downloaded'' w2;
               w4 = delete_older_binary_versions executable w3
           in case (if \<not> is_windows (platform e)
                    then os_chmod executable 493 (report ''bridges.tools.making_executable'' w4)
                    else Inr w4) of
                Inl err \<Rightarrow>
                  (Inl (FailedToDownloadBinaryNamed binary_name err),
                   report ''bridges.tools.download_failed''
                     (report ''bridges.tools.making_executable'' w4))
              | Inr w5 \<Rightarrow>
                  (Inr (),
                   if is_macos (platform e)
                   then remove_quarantine_attribute e
                          (report ''bridges.tools.removing_quarantine'' w5)
                   else w5)))"

definition get_binary_path ::
  "env \<Rightarrow> string \<Rightarrow> bool \<Rightarrow> world \<Rightarrow> (error + string list) \<times> world" where
  "get_binary_path e binary_name skip_binary_download w =
     (if skip_binary_download then (Inr [binary_name], w)
      else
        (case load e (tool_config_name e) of
           Inl err \<Rightarrow> (Inl err, w)
         | Inr config \<Rightarrow>
             (let binary_url = get_binary_url (platform e) config;
                  w1 = report ''bridges.tools.checking_binary'' w
              in case binary_url of
                   None \<Rightarrow>
                     (Inl (NoBinaryUrl binary_name), report ''bridges.tools.no_binary_url'' w1)
                 | Some url \<Rightarrow>
                     if url = [] then
                       (Inl (NoBinaryUrl binary_name),
                        report ''bridges.tools.no_binary_url'' w1)
                     else
                       (case urlparse e url of
                          None \<Rightarrow> (Inl UrlValueError, w1)
                        | Some parsed_url \<Rightarrow>
                            (let actual_filename = basename (platform e) (url_path parsed_url);
                                 executable =
                                   (if is_windows (platform e)
                                       \<and> \<not> endswith actual_filename ''.exe''
                                    then actual_filename @ ''.exe'' else actual_filename);
                                 w2 = (if bins w1 = None
                                       then makedirs_bins
                                              (report ''bridges.tools.creating_bins_directory'' w1)
                                       else w1)
                             in case (if bins_lookup w2 executable = None
                                      then download_binary_on_demand e binary_name url
                                             executable w2
                                      else (Inr (), w2)) of
                                  (Inl err, w3) \<Rightarrow> (Inl err, w3)
                                | (Inr u, w3) \<Rightarrow>
                                    (case (if \<not> is_windows (platform e)
                                           then os_chmod executable 493
                                                  (report ''bridges.tools.applying_permissions'' w3)
                                           else Inr w3) of
                                       Inl err \<Rightarrow>
                                         (Inl err,
                                          report ''bridges.tools.applying_permissions'' w3)
                                     | Inr w4 \<Rightarrow>
                                         (Inr (bins_path e @ [executable]),
                                          report ''bridges.tools.binary_ready'' w4)))))))"

section \<open>Resource bundles (BaseTool.get\_resource\_path)\<close>

definition set_hugging_face_url :: "env \<Rightarrow> string \<Rightarrow> string" where
  "set_hugging_face_url e url =
     (if \<not> str_in ''huggingface.co'' url then url
      else if \<not> hf_reachable e
      then replace ''https://huggingface.co'' ''https://hf-mirror.com'' url
      else url)"

text \<open>
  \<open>os.path.basename(urlparse(url).path).split('?')[0]\<close>; \<open>None\<close> when the parser
  raises.
\<close>

definition resource_file_name :: "env \<Rightarrow> string \<Rightarrow> string option" where
  "resource_file_name e url =
     map_option
       (\<lambda>parsed_url. takeWhile (\<lambda>c. c \<noteq> CHR ''?'') (basename (platform e) (url_path parsed_url)))
       (urlparse e url)"

text \<open>
  \<open>os.path.exists\<close> and \<open>os.path.getsize\<close> of a name joined to a resource
  directory: the size when the path exists. The empty name and the name of one dot
  denote the resource directory itself and the name of two dots the bins directory;
  the size of a directory is what the file system reports for it (\<open>dir_size\<close>). Any
  other name is a file of the directory's listing.
\<close>

definition resource_stat :: "env \<Rightarrow> world \<Rightarrow> string \<Rightarrow> string \<Rightarrow> nat option" where
  "resource_stat e w rname fname =
     (if fname \<in> set [[], ''.'', ''..''] then
        (case bins_lookup w rname of
           Some (Dir cs) \<Rightarrow>
             Some (dir_size e (if fname = ''..'' then bins_path e else bins_path e @ [rname]))
         | _ \<Rightarrow> None)
      else resource_lookup w rname fname)"

definition resource_missing_or_empty :: "env \<Rightarrow> world \<Rightarrow> string \<Rightarrow> string \<Rightarrow> bool" where
  "resource_missing_or_empty e w rname fname =
     (case resource_stat e w rname fname of None \<Rightarrow> True | Some n \<Rightarrow> n = 0)"

fun is_resource_complete :: "env \<Rightarrow> world \<Rightarrow> string \<Rightarrow> string list \<Rightarrow> error + bool" where
  "is_resource_complete e w rname [] = Inr True"
| "is_resource_complete e w rname (resource_url # urls) =
     (case resource_file_name e resource_url of
        None \<Rightarrow> Inl UrlValueError
      | Some file_name \<Rightarrow>
          if resource_missing_or_empty e w rname file_name then Inr False
          else is_resource_complete e w rname urls)"

definition dl_start_resource :: "env \<Rightarrow> string \<Rightarrow> string \<Rightarrow> string \<Rightarrow> world \<Rightarrow> world" where
  "dl_start_resource e url rname fname w =
     (let w1 = w\<lparr>transfers := transfers w @ [url]\<rparr> in
      case written (fetch e url) of
        None \<Rightarrow> w1
      | Some n \<Rightarrow> write_resource_file rname fname n w1)"

text \<open>The body of the \<open>try\<close> statement for one file of the bundle.\<close>

definition download_resource_file ::
  "env \<Rightarrow> string \<Rightarrow> string \<Rightarrow> string \<Rightarrow> world \<Rightarrow> (error + unit) \<times> world" where
  "download_resource_file e rname url fname w =
     (let w1 = (if bins_lookup w rname = None then makedirs_resource rname w else w);
          w2 = dl_start_resource e url rname fname w1
      in if cli_progress e \<and> dl_failed (fetch e url) then (Inl DownloadFailed, w2)
         else if resource_missing_or_empty e w2 rname fname then (Inl EmptyDownload, w2)
         else (Inr (), w2))"

fun download_resource_files ::
  "env \<Rightarrow> string \<Rightarrow> string list \<Rightarrow> world \<Rightarrow> (error + unit) \<times> world" where
  "download_resource_files e rname [] w = (Inr (), w)"
| "download_resource_files e rname (resource_url # urls) w =
     (let adjusted_url = set_hugging_face_url e resource_url in
      case resource_file_name e adjusted_url of
        None \<Rightarrow> (Inl UrlValueError, w)
      | Some file_name \<Rightarrow>
          (case download_resource_file e rname adjusted_url file_name
                  (report ''bridges.tools.downloading_resource_file'' w) of
             (Inl err, w2) \<Rightarrow>
               (Inl (ResourceFileDownloadFailed file_name err),
                report ''bridges.tools.resource_file_download_failed'' w2)
           | (Inr u, w2) \<Rightarrow>
               download_resource_files e rname urls
                 (report ''bridges.tools.resource_file_downloaded'' w2)))"

definition get_resource_path ::
  "env \<Rightarrow> string \<Rightarrow> world \<Rightarrow> (error + string list) \<times> world" where
  "get_resource_path e resource_name w =
     (case load e (tool_config_name e) of
        Inl err \<Rightarrow> (Inl err, w)
      | Inr config \<Rightarrow>
          (let resource_urls =
                 (case resources config of None \<Rightarrow> None | Some rs \<Rightarrow> map_of rs resource_name);
               w1 = report ''bridges.tools.checking_resource'' w
           in case resource_urls of
                None \<Rightarrow>
                  (Inl (NoResourceUrls resource_name),
                   report ''bridges.tools.no_resource_urls'' w1)
              | Some urls \<Rightarrow>
                  if urls = [] then
                    (Inl (NoResourceUrls resource_name),
                     report ''bridges.tools.no_resource_urls'' w1)
                  else
                    (let w2 = (if bins_lookup w1 resource_name = None
                               then makedirs_resource resource_name
                                      (report ''bridges.tools.creating_resource_directory'' w1)
                               else w1)
                     in case is_resource_complete e w2 resource_name urls of
                          Inl err \<Rightarrow> (Inl err, w2)
                        | Inr complete \<Rightarrow>
                            if complete then
                              (Inr (bins_path e @ [resource_name]),
                               report ''bridges.tools.resource_already_exists'' w2)
                            else
                              (case download_resource_files e resource_name urls
                                      (report ''bridges.tools.downloading_resource'' w2) of
                                 (Inl err, w3) \<Rightarrow> (Inl err, w3)
                               | (Inr u, w3) \<Rightarrow>
                                   (Inr (bins_path e @ [resource_name]),
                                    report ''bridges.tools.resource_downloaded'' w3)))))"

section \<open>Synchronous execution (BaseTool.\_execute\_sync\_command)\<close>

text \<open>
  What the spawned shell command does: it ends after some time with an exit code and
  its captured output, or it cannot be launched. \<open>subprocess.run\<close> raises
  \<open>TimeoutExpired\<close>, carrying the timeout it was given, when a timeout is given and
  the command is still running after it. Time is any linearly ordered type.
\<close>

datatype 't proc = Exits 't int string string | CannotLaunch string

datatype 't run_result = Completed int string string | TimeoutExpired 't | Raised string

record 't exec_options =
  opt_sync :: "bool option"
  opt_cwd :: "string option"
  opt_timeout :: "'t option"

definition subprocess_run :: "'t::linorder option \<Rightarrow> 't proc \<Rightarrow> 't run_result" where
  "subprocess_run timeout p =
     (case p of
        CannotLaunch msg \<Rightarrow> Raised msg
      | Exits d rc out err \<Rightarrow>
          (case timeout of
             None \<Rightarrow> Completed rc out err
           | Some t \<Rightarrow> if t < d then TimeoutExpired t else Completed rc out err))"

text \<open>
  The three exceptions of the synchronous path, by message template:
  \<open>Command failed with exit code {returncode}: {stderr}\<close>,
  \<open>Command timed out after {timeout}s\<close>, and the launch exception raised again as
  it is.
\<close>

datatype 't command_error = CommandFailed int string | CommandTimeout 't | CommandError string

definition execute_sync_command ::
  "'t::linorder exec_options \<Rightarrow> 't proc \<Rightarrow> world \<Rightarrow> ('t command_error + string) \<times> world" where
  "execute_sync_command opts p w =
     (case subprocess_run (opt_timeout opts) p of
        Completed rc out err \<Rightarrow>
          if rc = 0 then (Inr out, report ''bridges.tools.command_completed'' w)
          else (Inl (CommandFailed rc err),
                report ''bridges.tools.command_error''
                  (report ''bridges.tools.command_failed'' w))
      | TimeoutExpired t \<Rightarrow>
          (Inl (CommandTimeout t), report ''bridges.tools.command_timeout'' w)
      | Raised msg \<Rightarrow>
          (Inl (CommandError msg), report ''bridges.tools.command_error'' w))"

section \<open>Download progress (BaseTool.\_handle\_download\_progress)\<close>

text \<open>
  One turn of the polling loop reads the download state: \<open>dl.progress\<close> and
  \<open>dl.Failed\<close> in the loop test, \<open>dl.progress\<close> again and the clock in the body. The
  list of polls is what the loop reads turn after turn; a list that ends before a poll
  with a progress of 100 or the failure flag stands for a loop that is still waiting,
  and the result is \<open>None\<close>. A progress line carries the percentage it prints and the
  time of the poll that emitted it.
\<close>

record poll =
  seen_progress :: int
  failed :: bool
  body_progress :: int
  now_ms :: int

datatype log_line = Downloading int int | Download_completed

definition should_log :: "int \<Rightarrow> int \<Rightarrow> poll \<Rightarrow> bool" where
  "should_log last_logged_percentage last_log_time p =
     (body_progress p \<ge> last_logged_percentage + 5
      \<or> now_ms p - last_log_time \<ge> 2000
      \<or> body_progress p = 100)"

definition polling :: "poll \<Rightarrow> bool" where
  "polling p = (seen_progress p < 100 \<and> \<not> failed p)"

fun progress_loop :: "int \<Rightarrow> int \<Rightarrow> poll list \<Rightarrow> (log_line list \<times> bool) option" where
  "progress_loop last_logged_percentage last_log_time [] = None"
| "progress_loop last_logged_percentage last_log_time (p # ps) =
     (if polling p then
        (if should_log last_logged_percentage last_log_time p
         then map_option (\<lambda>(ls, f). (Downloading (body_progress p) (now_ms p) # ls, f))
                (progress_loop (body_progress p) (now_ms p) ps)
         else progress_loop last_logged_percentage last_log_time ps)
      else Some ([Download_completed], failed p))"

definition handle_download_progress :: "poll list \<Rightarrow> (log_line list \<times> (error + unit)) option" where
  "handle_download_progress polls =
     map_option (\<lambda>(ls, f). (ls, if f then Inl DownloadFailed else Inr ()))
       (progress_loop (- 1) 0 polls)"

text \<open>
  The throttling rule on its own: the polls of a list that emit a line, given the
  percentage and the time of the last line before the list. \<open>spaced\<close> says that every
  poll of a list satisfies the rule with respect to the one before it.
\<close>

fun throttled :: "int \<Rightarrow> int \<Rightarrow> poll list \<Rightarrow> poll list" where
  "throttled last_pct last_time [] = []"
| "throttled last_pct last_time (p # ps) =
     (if body_progress p \<ge> last_pct + 5 \<or> now_ms p - last_time \<ge> 2000 \<or> body_progress p = 100
      then p # throttled (body_progress p) (now_ms p) ps
      else throttled last_pct last_time ps)"

fun spaced :: "int \<Rightarrow> int \<Rightarrow> poll list \<Rightarrow> bool" where
  "spaced last_pct last_time [] = True"
| "spaced last_pct last_time (p # ps) =
     ((body_progress p \<ge> last_pct + 5 \<or> now_ms p - last_time \<ge> 2000 \<or> body_progress p = 100)
      \<and> spaced (body_progress p) (now_ms p) ps)"

definition line_of :: "poll \<Rightarrow> log_line" where
  "line_of p = Downloading (body_progress p) (now_ms p)"

text \<open>
  A download that advances by one percent every 50 ms, polled every 100 ms from the
  time 1700000000000 on: the poll number k reads 2k percent.
\<close>

definition simulated_polls :: "poll list" where
  "simulated_polls =
     map (\<lambda>k. \<lparr>seen_progress = 2 * int k, failed = False, body_progress = 2 * int k,
               now_ms = 1700000000000 + 100 * int k\<rparr>) [0 ..< 51]"

text \<open>
  The binary a tool resolves to: the URL its configuration declares for the host's
  platform and the file name derived from it, when the configuration loads, declares
  a URL and the URL parses.
\<close>

definition resolved_binary :: "env \<Rightarrow> (string \<times> string) option" where
  "resolved_binary e =
     (case load e (tool_config_name e) of
        Inl err \<Rightarrow> None
      | Inr config \<Rightarrow>
          (case get_binary_url (platform e) config of
             None \<Rightarrow> None
           | Some url \<Rightarrow>
               if url = [] then None
               else
                 (case urlparse e url of
                    None \<Rightarrow> None
                  | Some parsed_url \<Rightarrow>
                      (let actual_filename = basename (platform e) (url_path parsed_url)
                       in Some (url,
                                if is_windows (platform e) \<and> \<not> endswith actual_filename ''.exe''
                                then actual_filename @ ''.exe'' else actual_filename)))))"

text \<open>
  A file name is superseded by a new binary when it matches the pattern with the base
  name and the platform of the new binary and another version.
\<close>

definition superseded :: "string \<times> string \<times> string \<Rightarrow> string \<Rightarrow> bool" where
  "superseded new f =
     (case version_match f of
        None \<Rightarrow> False
      | Some (file_base_name, file_version, file_platform) \<Rightarrow>
          file_base_name = fst new \<and> file_platform = snd (snd new)
          \<and> file_version \<noteq> fst (snd new))"

definition is_file :: "world \<Rightarrow> string \<Rightarrow> bool" where
  "is_file w f = (case bins_lookup w f of Some (File n m) \<Rightarrow> True | _ \<Rightarrow> False)"

text \<open>
  Every declared URL of a bundle passes the test of the completeness check: its file
  name, joined to the resource directory, exists with a size that is not zero; and the
  state in which \<open>get_resource_path\<close> checks this, after it has reported the check
  and made sure the resource directory exists.
\<close>

definition all_present :: "env \<Rightarrow> world \<Rightarrow> string \<Rightarrow> string list \<Rightarrow> bool" where
  "all_present e w rname urls =
     list_all
       (\<lambda>u. case resource_file_name e u of
              None \<Rightarrow> False
            | Some f \<Rightarrow> \<not> resource_missing_or_empty e w rname f)
       urls"

definition resource_dir_ready :: "string \<Rightarrow> world \<Rightarrow> world" where
  "resource_dir_ready rname w =
     (let w1 = report ''bridges.tools.checking_resource'' w in
      if bins_lookup w1 rname = None
      then makedirs_resource rname (report ''bridges.tools.creating_resource_directory'' w1)
      else w1)"

section \<open>An example toolkit\<close>

text \<open>
  A toolkit document with one tool, declared for Linux and Windows only, and a resource
  bundle of two files; hosts of the three systems; a downloader that writes ten bytes
  for every URL, and one that writes nothing.
\<close>

definition example_config :: tool_config where
  "example_config =
     \<lparr>description = Some ''media converter'',
      binaries = Some
        [(''linux-x86_64'', ''https://example.com/releases/tool_1.1.0-linux-x86_64''),
         (''win-amd64'', ''https://example.com/releases/tool_1.1.0-win-amd64.exe'')],
      resources = Some
        [(''models'',
          [''https://example.com/m/weights.bin?download=true'',
           ''https://example.com/m/config.json''])]\<rparr>"

definition example_doc :: toolkit_document where
  "example_doc = \<lparr>display_name = Some ''Video'', tools = [(''ffmpeg'', example_config)]\<rparr>"

definition linux_host :: host where
  "linux_host = \<lparr>system = ''Linux'', machine = ''x86_64'', processor = ''x86_64''\<rparr>"

definition windows_host :: host where
  "windows_host = \<lparr>system = ''Windows'', machine = ''AMD64'', processor = ''Intel64''\<rparr>"

definition mac_host :: host where
  "mac_host = \<lparr>system = ''Darwin'', machine = ''arm64'', processor = ''arm''\<rparr>"

definition example_env :: env where
  "example_env =
     \<lparr>platform = linux_host, urlparse = py_urlparse, toolkit = ''video'',
      tool_name = ''FfmpegTool'', toolkits_path = ''/leon/bridges/toolkits'',
      toolkit_doc = Some example_doc, cli_progress = True,
      fetch = (\<lambda>url. \<lparr>written = Some 10, dl_failed = False\<rparr>),
      hf_reachable = True, xattr_rc = Some 0, dir_size = (\<lambda>path. 4096)\<rparr>"

definition offline_env :: env where
  "offline_env = example_env\<lparr>fetch := (\<lambda>url. \<lparr>written = None, dl_failed = False\<rparr>)\<rparr>"

definition windows_env :: env where
  "windows_env = example_env\<lparr>platform := windows_host\<rparr>"

definition mac_env :: env where
  "mac_env = example_env\<lparr>platform := mac_host\<rparr>"

definition empty_world :: world where
  "empty_world = \<lparr>bins = None, events = [], transfers = []\<rparr>"

text \<open>
  A bins directory with a directory and two files named like versions of one binary.
\<close>

definition cluttered_world :: world where
  "cluttered_world =
     \<lparr>bins = Some
        [(''tool_0.9.0-linux-x86_64'', Dir []),
         (''tool_1.0.0-linux-x86_64'', File 10 493),
         (''tool_1.1.0-linux-x86_64'', File 12 420)],
      events = [], transfers = []\<rparr>"

definition old_versions_world :: world where
  "old_versions_world =
     \<lparr>bins = Some
        [(''tool_1.0.0-linux-x86_64'', File 10 493),
         (''tool_1.0.0-win-amd64.exe'', File 11 420),
         (''other_1.0.0-linux-x86_64'', File 9 493),
         (''notes.txt'', File 3 420),
         (''tool_1.1.0-linux-x86_64'', File 12 420)],
      events = [], transfers = []\<rparr>"

text \<open>A downloader that leaves the second file of the bundle with no content.\<close>

definition truncating_env :: env where
  "truncating_env =
     example_env\<lparr>fetch :=
       (\<lambda>url. if url = ''https://example.com/m/config.json''
              then \<lparr>written = Some 0, dl_failed = False\<rparr>
              else \<lparr>written = Some 10, dl_failed = False\<rparr>)\<rparr>"

definition complete_world :: world where
  "complete_world =
     \<lparr>bins = Some [(''models'', Dir [(''weights.bin'', 10), (''config.json'', 7)])],
      events = [], transfers = []\<rparr>"

text \<open>
  A bins directory where a directory stands between superseded files in the listing.
\<close>

definition blocked_world :: world where
  "blocked_world =
     \<lparr>bins = Some
        [(''tool_0.8.0-linux-x86_64'', File 8 493),
         (''tool_0.9.0-linux-x86_64'', Dir []),
         (''tool_1.0.0-linux-x86_64'', File 10 493),
         (''tool_1.1.0-linux-x86_64'', File 12 420)],
      events = [], transfers = []\<rparr>"

text \<open>
  A bundle whose second URL does not parse and whose third file is missing, with the
  first file in place; and a bundle of one URL that ends in a slash.
\<close>

definition broken_config :: tool_config where
  "broken_config =
     \<lparr>description = Some ''media converter'', binaries = None,
      resources = Some
        [(''models'',
          [''https://example.com/m/weights.bin'', ''https://[example.com/m/vocab.txt'',
           ''https://example.com/m/config.json''])]\<rparr>"

definition broken_env :: env where
  "broken_env =
     example_env\<lparr>toolkit_doc := Some
       \<lparr>display_name = Some ''Video'', tools = [(''ffmpeg'', broken_config)]\<rparr>\<rparr>"

definition partial_world :: world where
  "partial_world =
     \<lparr>bins = Some [(''models'', Dir [(''weights.bin'', 10)])],
      events = [], transfers = []\<rparr>"

definition slash_config :: tool_config where
  "slash_config =
     \<lparr>description = Some ''media converter'', binaries = None,
      resources = Some [(''models'', [''https://example.com/m/''])]\<rparr>"

definition slash_env :: env where
  "slash_env =
     example_env\<lparr>toolkit_doc := Some
       \<lparr>display_name = Some ''Video'', tools = [(''ffmpeg'', slash_config)]\<rparr>\<rparr>"

section \<open>Properties of the platform resolver\<close>

lemma get_platform_name_tag: "get_platform_name h \<in> set platform_tags"
  by (simp add: get_platform_name_def platform_tags_def Let_def)

lemma linux_alias_x86:
  "lower (system h) = ''linux'' \<Longrightarrow> lower (machine h) \<in> {''x86_64'', ''amd64''}
   \<Longrightarrow> get_platform_name h = ''linux-x86_64''"
  by (auto simp add: get_platform_name_def Let_def)

lemma linux_alias_arm:
  "lower (system h) = ''linux'' \<Longrightarrow> lower (machine h) \<in> {''aarch64'', ''arm64''}
   \<Longrightarrow> get_platform_name h = ''linux-aarch64''"
  by (auto simp add: get_platform_name_def Let_def)

lemma linux_other_arch:
  "lower (system h) = ''linux'' \<Longrightarrow> lower (machine h) \<notin> {''aarch64'', ''arm64''}
   \<Longrightarrow> get_platform_name h = ''linux-x86_64''"
  by (auto simp add: get_platform_name_def Let_def)

lemma darwin_alias_arm:
  "lower (system h) = ''darwin'' \<Longrightarrow> lower (machine h) \<in> {''aarch64'', ''arm64''}
   \<Longrightarrow> get_platform_name h = ''macosx-arm64''"
  by (auto simp add: get_platform_name_def Let_def)

lemma darwin_alias_x86:
  "lower (system h) = ''darwin'' \<Longrightarrow> lower (machine h) \<in> {''x86_64'', ''amd64''}
   \<Longrightarrow> get_platform_name h =
       (if str_in ''apple'' (lower (processor h)) then ''macosx-arm64'' else ''macosx-x86_64'')"
  by (auto simp add: get_platform_name_def Let_def)

lemma windows_any_arch:
  "lower (system h) = ''windows'' \<Longrightarrow> get_platform_name h = ''win-amd64''"
  by (simp add: get_platform_name_def Let_def)

text \<open>
  Claim C4. For every host (OS name, machine architecture and processor string),
  \<open>get_platform_name\<close> returns one of the six platform tags. On Linux the
  architectures x86_64 and amd64 both give linux-x86_64, aarch64 and arm64 both give
  linux-aarch64, and every other architecture gives linux-x86_64. On macOS aarch64 and
  arm64 both give macosx-arm64, and x86_64 and amd64 give one and the same tag. On
  Windows every architecture gives win-amd64.
\<close>

theorem get_platform_name_resolves:
  "get_platform_name h \<in> set platform_tags
   \<and> (lower (system h) = ''linux'' \<and> lower (machine h) \<in> {''x86_64'', ''amd64''}
        \<longrightarrow> get_platform_name h = ''linux-x86_64'')
   \<and> (lower (system h) = ''linux'' \<and> lower (machine h) \<in> {''aarch64'', ''arm64''}
        \<longrightarrow> get_platform_name h = ''linux-aarch64'')
   \<and> (lower (system h) = ''linux''
        \<and> lower (machine h) \<notin> {''x86_64'', ''amd64'', ''aarch64'', ''arm64''}
        \<longrightarrow> get_platform_name h = ''linux-x86_64'')
   \<and> (lower (system h) = ''darwin'' \<and> lower (machine h) \<in> {''aarch64'', ''arm64''}
        \<longrightarrow> get_platform_name h = ''macosx-arm64'')
   \<and> (lower (system h) = ''darwin''
        \<longrightarrow> get_platform_name (h\<lparr>machine := ''x86_64''\<rparr>)
            = get_platform_name (h\<lparr>machine := ''amd64''\<rparr>))
   \<and> (lower (system h) = ''windows'' \<longrightarrow> get_platform_name h = ''win-amd64'')"
proof -
  have mac_x86: "lower (system h) = ''darwin''
      \<Longrightarrow> get_platform_name (h\<lparr>machine := ''x86_64''\<rparr>)
          = get_platform_name (h\<lparr>machine := ''amd64''\<rparr>)"
  proof -
    have low: "lower ''x86_64'' = ''x86_64''" "lower ''amd64'' = ''amd64''"
      by code_simp+
    show "lower (system h) = ''darwin''
      \<Longrightarrow> get_platform_name (h\<lparr>machine := ''x86_64''\<rparr>)
          = get_platform_name (h\<lparr>machine := ''amd64''\<rparr>)"
      by (simp add: get_platform_name_def Let_def low)
  qed
  show ?thesis
    using get_platform_name_tag [of h] linux_alias_x86 [of h] linux_alias_arm [of h]
      linux_other_arch [of h] darwin_alias_arm [of h] windows_any_arch [of h] mac_x86
    by blast
qed

theorem get_platform_name_resolves_witness:
  "get_platform_name \<lparr>system = ''Linux'', machine = ''AMD64'', processor = []\<rparr>
     = ''linux-x86_64''
   \<and> get_platform_name \<lparr>system = ''Linux'', machine = ''arm64'', processor = []\<rparr>
     = ''linux-aarch64''
   \<and> get_platform_name \<lparr>system = ''Linux'', machine = ''riscv64'', processor = []\<rparr>
     = ''linux-x86_64''
   \<and> get_platform_name \<lparr>system = ''Darwin'', machine = ''arm64'', processor = ''arm''\<rparr>
     = ''macosx-arm64''
   \<and> get_platform_name \<lparr>system = ''Darwin'', machine = ''x86_64'', processor = ''i386''\<rparr>
     = get_platform_name \<lparr>system = ''Darwin'', machine = ''amd64'', processor = ''i386''\<rparr>
   \<and> get_platform_name \<lparr>system = ''Windows'', machine = ''ARM64'', processor = []\<rparr>
     = ''win-amd64''"
proof -
  have low: "lower ''Linux'' = ''linux''" "lower ''Darwin'' = ''darwin''"
    "lower ''Windows'' = ''windows''" "lower ''AMD64'' = ''amd64''"
    "lower ''ARM64'' = ''arm64''" "lower ''arm64'' = ''arm64''"
    "lower ''riscv64'' = ''riscv64''" "lower ''x86_64'' = ''x86_64''"
    "lower ''amd64'' = ''amd64''" "lower ''arm'' = ''arm''" "lower ''i386'' = ''i386''"
    "lower [] = []"
    by code_simp+
  show ?thesis
    using
      get_platform_name_resolves [of "\<lparr>system = ''Linux'', machine = ''AMD64'', processor = []\<rparr>"]
      get_platform_name_resolves [of "\<lparr>system = ''Linux'', machine = ''arm64'', processor = []\<rparr>"]
      get_platform_name_resolves [of "\<lparr>system = ''Linux'', machine = ''riscv64'', processor = []\<rparr>"]
      get_platform_name_resolves [of "\<lparr>system = ''Darwin'', machine = ''arm64'', processor = ''arm''\<rparr>"]
      get_platform_name_resolves [of "\<lparr>system = ''Darwin'', machine = ''x86_64'', processor = ''i386''\<rparr>"]
      get_platform_name_resolves [of "\<lparr>system = ''Windows'', machine = ''ARM64'', processor = []\<rparr>"]
    by (simp add: low)
qed

section \<open>Properties of shell argument escaping\<close>

lemma re_sub_escape_concat:
  "re_sub_escape s = concat (map (\<lambda>c. if is_posix_special c then [CHR 0x5C, c] else [c]) s)"
  by (induction s) auto

lemma replace_char:
  "replace [q] new s = concat (map (\<lambda>c. if c = q then new else [c]) s)"
  by (induction s) (auto simp add: replace_def)

lemma alpha_not_c0: "is_ascii_alpha c \<Longrightarrow> \<not> is_c0_or_space c"
  by (auto simp add: is_ascii_alpha_def is_c0_or_space_def)

lemma alpha_not_colon: "is_ascii_alpha c \<Longrightarrow> c \<noteq> CHR '':''"
  by (auto simp add: is_ascii_alpha_def)

lemma filter_safe: "\<not> list_ex is_unsafe_url_byte s \<Longrightarrow> filter (\<lambda>c. \<not> is_unsafe_url_byte c) s = s"
  by (induction s) auto

lemma py_urlparse_letter_led:
  assumes "arg \<noteq> []" and "is_ascii_alpha (hd arg)" and "CHR '':'' \<in> set arg"
    and "list_all is_scheme_char (takeWhile (\<lambda>c. c \<noteq> CHR '':'') arg)"
    and "\<not> list_ex is_unsafe_url_byte arg"
    and "take 2 (drop (Suc (length (takeWhile (\<lambda>c. c \<noteq> CHR '':'') arg))) arg) \<noteq> ''//''"
  shows "\<exists>p. py_urlparse arg = Some p
           \<and> url_scheme p = lower (takeWhile (\<lambda>c. c \<noteq> CHR '':'') arg) \<and> url_scheme p \<noteq> []"
proof -
  obtain a rest where arg: "arg = a # rest"
    using assms(1) by (cases arg) auto
  have a: "is_ascii_alpha a"
    using assms(2) arg by simp
  have strip: "dropWhile is_c0_or_space arg = arg"
    using a arg alpha_not_c0 by simp
  have pre: "takeWhile (\<lambda>c. c \<noteq> CHR '':'') arg \<noteq> []"
    using a arg alpha_not_colon by simp
  have sch: "split_scheme arg =
      (lower (takeWhile (\<lambda>c. c \<noteq> CHR '':'') arg),
       drop (Suc (length (takeWhile (\<lambda>c. c \<noteq> CHR '':'') arg))) arg)"
    using assms(2,3,4) pre by (simp add: split_scheme_def Let_def)
  have net: "splitnetloc (drop (Suc (length (takeWhile (\<lambda>c. c \<noteq> CHR '':'') arg))) arg) =
      ([], drop (Suc (length (takeWhile (\<lambda>c. c \<noteq> CHR '':'') arg))) arg)"
    using assms(6) by (simp add: splitnetloc_def)
  have low: "lower (takeWhile (\<lambda>c. c \<noteq> CHR '':'') arg) \<noteq> []"
    using pre by (simp add: lower_def)
  show ?thesis
    using low by (simp add: py_urlparse_def strip filter_safe [OF assms(5)] sch net Let_def)
qed

text \<open>
  Claim C5, as amended. An argument for which the parser reports a scheme is returned
  unchanged. Any other argument is, on Windows, wrapped in double quotes with every
  double quote inside it preceded by a backslash when it contains a space character, a
  double quote, an ampersand or a vertical bar, and returned unchanged otherwise; on
  the other systems every character of the class (double quote, single quote,
  whitespace, dollar, backtick, backslash, parentheses, braces, brackets, vertical
  bar, ampersand, semicolon, angle brackets, star, question mark, exclamation mark) is
  preceded by a backslash and every other character is kept. The whitespace of the
  class is what \<open>\s\<close> matches: the code points 9 to 13, 28 to 31, 32, 0x85 and
  0xA0.
\<close>

theorem escape_shell_arg_rule:
  "(\<forall>p. urlparse e arg = Some p \<longrightarrow> url_scheme p \<noteq> [] \<longrightarrow> escape_shell_arg e arg = arg)
   \<and> ((urlparse e arg = None \<or> (\<exists>p. urlparse e arg = Some p \<and> url_scheme p = [])) \<longrightarrow>
        escape_shell_arg e arg =
          (if is_windows (platform e) then
             (if CHR '' '' \<in> set arg \<or> CHR 0x22 \<in> set arg \<or> CHR ''&'' \<in> set arg
                 \<or> CHR ''|'' \<in> set arg
              then [CHR 0x22]
                     @ concat (map (\<lambda>c. if c = CHR 0x22 then [CHR 0x5C, CHR 0x22] else [c]) arg)
                     @ [CHR 0x22]
              else arg)
           else concat (map (\<lambda>c. if is_posix_special c then [CHR 0x5C, c] else [c]) arg)))"
  by (auto simp add: escape_shell_arg_def re_sub_escape_concat replace_char
        split: option.splits)

theorem escape_shell_arg_rule_witness:
  "escape_shell_arg example_env ''http://example.com/a b'' = ''http://example.com/a b''
   \<and> escape_shell_arg example_env ''a b'' = [CHR ''a'', CHR 0x5C, CHR '' '', CHR ''b'']
   \<and> escape_shell_arg windows_env ''a b'' = [CHR 0x22, CHR ''a'', CHR '' '', CHR ''b'', CHR 0x22]
   \<and> escape_shell_arg windows_env ''a;b'' = ''a;b''
   \<and> escape_shell_arg example_env [CHR ''a'', CHR 0xA0, CHR ''b'', CHR 0x85]
       = [CHR ''a'', CHR 0x5C, CHR 0xA0, CHR ''b'', CHR 0x5C, CHR 0x85]"
proof -
  have u1: "urlparse example_env ''http://example.com/a b''
      = Some \<lparr>url_scheme = ''http'', url_path = ''/a b''\<rparr>"
    by code_simp
  have u2: "urlparse example_env ''a b'' = Some \<lparr>url_scheme = [], url_path = ''a b''\<rparr>"
    by code_simp
  have u3: "urlparse windows_env ''a b'' = Some \<lparr>url_scheme = [], url_path = ''a b''\<rparr>"
    by code_simp
  have u4: "urlparse windows_env ''a;b'' = Some \<lparr>url_scheme = [], url_path = ''a''\<rparr>"
    by code_simp
  have lin: "\<not> is_windows (platform example_env)"
    by code_simp
  have win: "is_windows (platform windows_env)"
    by code_simp
  have u5: "urlparse example_env [CHR ''a'', CHR 0xA0, CHR ''b'', CHR 0x85]
      = Some \<lparr>url_scheme = [], url_path = [CHR ''a'', CHR 0xA0, CHR ''b'', CHR 0x85]\<rparr>"
    by code_simp
  have sp: "is_posix_special (CHR '' '')" "\<not> is_posix_special (CHR ''a'')"
    "\<not> is_posix_special (CHR ''b'')" "is_posix_special (CHR 0xA0)"
    "is_posix_special (CHR 0x85)"
    by code_simp+
  show ?thesis
    using escape_shell_arg_rule [of example_env "''http://example.com/a b''"]
      escape_shell_arg_rule [of example_env "''a b''"]
      escape_shell_arg_rule [of windows_env "''a b''"]
      escape_shell_arg_rule [of windows_env "''a;b''"]
      escape_shell_arg_rule [of example_env "[CHR ''a'', CHR 0xA0, CHR ''b'', CHR 0x85]"]
    by (simp add: u1 u2 u3 u4 u5 lin win sp)
qed

text \<open>
  The claim as it was stated fails on Windows for whitespace other than the space: an
  argument with a tab is no URL and is returned without quotes.
\<close>

theorem escape_shell_arg_tab_counterexample:
  "is_windows (platform windows_env)
   \<and> is_space_class (CHR 0x09)
   \<and> urlparse windows_env [CHR ''a'', CHR 0x09, CHR ''b'']
       = Some \<lparr>url_scheme = [], url_path = ''ab''\<rparr>
   \<and> escape_shell_arg windows_env [CHR ''a'', CHR 0x09, CHR ''b'']
       = [CHR ''a'', CHR 0x09, CHR ''b'']"
  by code_simp

text \<open>
  Claim C10. Every argument for which the parser reports a scheme is returned as it
  is, on every system. With the standard parser this holds for every argument that
  starts with a letter and has only letters, digits, plus, minus and dot before its
  first colon (no tab, CR or LF in it, and no two slashes after the colon), whatever
  follows the colon: spaces and shell metacharacters stay unescaped.
\<close>

theorem escape_shell_arg_scheme_passthrough:
  "(\<forall>p. urlparse e arg = Some p \<longrightarrow> url_scheme p \<noteq> [] \<longrightarrow> escape_shell_arg e arg = arg)
   \<and> (urlparse e = py_urlparse \<and> arg \<noteq> [] \<and> is_ascii_alpha (hd arg) \<and> CHR '':'' \<in> set arg
        \<and> list_all is_scheme_char (takeWhile (\<lambda>c. c \<noteq> CHR '':'') arg)
        \<and> \<not> list_ex is_unsafe_url_byte arg
        \<and> take 2 (drop (Suc (length (takeWhile (\<lambda>c. c \<noteq> CHR '':'') arg))) arg) \<noteq> ''//''
      \<longrightarrow> escape_shell_arg e arg = arg)"
proof -
  have general: "escape_shell_arg e arg = arg"
    if "urlparse e arg = Some p" and "url_scheme p \<noteq> []" for p
    using that by (simp add: escape_shell_arg_def)
  have standard: "escape_shell_arg e arg = arg"
    if a1: "urlparse e = py_urlparse" and a2: "arg \<noteq> []" and a3: "is_ascii_alpha (hd arg)"
      and a4: "CHR '':'' \<in> set arg"
      and a5: "list_all is_scheme_char (takeWhile (\<lambda>c. c \<noteq> CHR '':'') arg)"
      and a6: "\<not> list_ex is_unsafe_url_byte arg"
      and a7: "take 2 (drop (Suc (length (takeWhile (\<lambda>c. c \<noteq> CHR '':'') arg))) arg) \<noteq> ''//''"
  proof -
    obtain p where "py_urlparse arg = Some p" and "url_scheme p \<noteq> []"
      using py_urlparse_letter_led [OF a2 a3 a4 a5 a6 a7] by blast
    then show ?thesis
      using general [of p] a1 by simp
  qed
  show ?thesis
    using general standard by blast
qed

theorem escape_shell_arg_scheme_passthrough_witness:
  "escape_shell_arg example_env (''C:'' @ [CHR 0x5C] @ ''tools'' @ [CHR 0x5C] @ ''my app.exe'')
     = ''C:'' @ [CHR 0x5C] @ ''tools'' @ [CHR 0x5C] @ ''my app.exe''
   \<and> escape_shell_arg windows_env (''C:'' @ [CHR 0x5C] @ ''tools'' @ [CHR 0x5C] @ ''my app.exe'')
     = ''C:'' @ [CHR 0x5C] @ ''tools'' @ [CHR 0x5C] @ ''my app.exe''
   \<and> escape_shell_arg example_env ''key:value; rm *'' = ''key:value; rm *''
   \<and> is_posix_special (CHR '' '') \<and> is_posix_special (CHR 0x5C)
   \<and> is_posix_special (CHR '';'') \<and> is_posix_special (CHR ''*'')"
proof -
  let ?win = "''C:'' @ [CHR 0x5C] @ ''tools'' @ [CHR 0x5C] @ ''my app.exe''"
  let ?kv = "''key:value; rm *''"
  have up: "urlparse example_env = py_urlparse" "urlparse windows_env = py_urlparse"
    by (simp_all add: example_env_def windows_env_def)
  have shape: "?win \<noteq> [] \<and> is_ascii_alpha (hd ?win) \<and> CHR '':'' \<in> set ?win
      \<and> list_all is_scheme_char (takeWhile (\<lambda>c. c \<noteq> CHR '':'') ?win)
      \<and> \<not> list_ex is_unsafe_url_byte ?win
      \<and> take 2 (drop (Suc (length (takeWhile (\<lambda>c. c \<noteq> CHR '':'') ?win))) ?win) \<noteq> ''//''"
    by code_simp
  have shape_kv: "?kv \<noteq> [] \<and> is_ascii_alpha (hd ?kv) \<and> CHR '':'' \<in> set ?kv
      \<and> list_all is_scheme_char (takeWhile (\<lambda>c. c \<noteq> CHR '':'') ?kv)
      \<and> \<not> list_ex is_unsafe_url_byte ?kv
      \<and> take 2 (drop (Suc (length (takeWhile (\<lambda>c. c \<noteq> CHR '':'') ?kv))) ?kv) \<noteq> ''//''"
    by code_simp
  have r1: "escape_shell_arg example_env ?win = ?win"
    using escape_shell_arg_scheme_passthrough [of example_env ?win] up(1) shape by blast
  have r2: "escape_shell_arg windows_env ?win = ?win"
    using escape_shell_arg_scheme_passthrough [of windows_env ?win] up(2) shape by blast
  have r3: "escape_shell_arg example_env ?kv = ?kv"
    using escape_shell_arg_scheme_passthrough [of example_env ?kv] up(1) shape_kv by blast
  have sp: "is_posix_special (CHR '' '') \<and> is_posix_special (CHR 0x5C)
      \<and> is_posix_special (CHR '';'') \<and> is_posix_special (CHR ''*'')"
    by code_simp
  show ?thesis
    using r1 r2 r3 sp by blast
qed

section \<open>Properties of synchronous execution\<close>

text \<open>
  Claim C6. A synchronous run returns the captured standard output when the command
  exits with code zero, raises the command-failed exception with the exit code and the
  captured standard error when it exits with another code, raises the timeout
  exception with the configured timeout when the timeout expires, and raises the
  launch error otherwise; every run has exactly one of these four outcomes.
\<close>

theorem execute_sync_command_outcomes:
  fixes opts :: "'t::linorder exec_options"
  shows
  "(subprocess_run (opt_timeout opts) p = Completed 0 out err
      \<longrightarrow> fst (execute_sync_command opts p w) = Inr out)
   \<and> (subprocess_run (opt_timeout opts) p = Completed rc out err \<and> rc \<noteq> 0
      \<longrightarrow> fst (execute_sync_command opts p w) = Inl (CommandFailed rc err))
   \<and> (p = Exits d rc out err \<and> opt_timeout opts = Some t \<and> t < d
      \<longrightarrow> fst (execute_sync_command opts p w) = Inl (CommandTimeout t))
   \<and> (subprocess_run (opt_timeout opts) p = TimeoutExpired t
      \<longrightarrow> opt_timeout opts = Some t)
   \<and> (p = CannotLaunch msg
      \<longrightarrow> fst (execute_sync_command opts p w) = Inl (CommandError msg))
   \<and> ((\<exists>x. fst (execute_sync_command opts p w) = Inr x)
        \<or> (\<exists>c e. fst (execute_sync_command opts p w) = Inl (CommandFailed c e) \<and> c \<noteq> 0)
        \<or> (\<exists>x. fst (execute_sync_command opts p w) = Inl (CommandTimeout x))
        \<or> (\<exists>m. fst (execute_sync_command opts p w) = Inl (CommandError m)))
   \<and> \<not> ((\<exists>x. fst (execute_sync_command opts p w) = Inr x)
        \<and> (\<exists>c e. fst (execute_sync_command opts p w) = Inl (CommandFailed c e)))
   \<and> \<not> ((\<exists>x. fst (execute_sync_command opts p w) = Inr x)
        \<and> (\<exists>x. fst (execute_sync_command opts p w) = Inl (CommandTimeout x)))
   \<and> \<not> ((\<exists>x. fst (execute_sync_command opts p w) = Inr x)
        \<and> (\<exists>m. fst (execute_sync_command opts p w) = Inl (CommandError m)))
   \<and> \<not> ((\<exists>c e. fst (execute_sync_command opts p w) = Inl (CommandFailed c e))
        \<and> (\<exists>x. fst (execute_sync_command opts p w) = Inl (CommandTimeout x)))
   \<and> \<not> ((\<exists>c e. fst (execute_sync_command opts p w) = Inl (CommandFailed c e))
        \<and> (\<exists>m. fst (execute_sync_command opts p w) = Inl (CommandError m)))
   \<and> \<not> ((\<exists>x. fst (execute_sync_command opts p w) = Inl (CommandTimeout x))
        \<and> (\<exists>m. fst (execute_sync_command opts p w) = Inl (CommandError m)))"
proof -
  let ?r = "fst (execute_sync_command opts p w)"
  have c1: "subprocess_run (opt_timeout opts) p = Completed 0 out err \<longrightarrow> ?r = Inr out"
    by (simp add: execute_sync_command_def)
  have c2: "subprocess_run (opt_timeout opts) p = Completed rc out err \<and> rc \<noteq> 0
      \<longrightarrow> ?r = Inl (CommandFailed rc err)"
    by (simp add: execute_sync_command_def)
  have c3: "p = Exits d rc out err \<and> opt_timeout opts = Some t \<and> t < d
      \<longrightarrow> ?r = Inl (CommandTimeout t)"
    by (simp add: execute_sync_command_def subprocess_run_def)
  have c4: "subprocess_run (opt_timeout opts) p = TimeoutExpired t \<longrightarrow> opt_timeout opts = Some t"
    by (cases p; cases "opt_timeout opts") (simp_all add: subprocess_run_def split: if_splits)
  have c5: "p = CannotLaunch msg \<longrightarrow> ?r = Inl (CommandError msg)"
    by (simp add: execute_sync_command_def subprocess_run_def)
  have c6: "(\<exists>x. ?r = Inr x) \<or> (\<exists>c e. ?r = Inl (CommandFailed c e) \<and> c \<noteq> 0)
      \<or> (\<exists>x. ?r = Inl (CommandTimeout x)) \<or> (\<exists>m. ?r = Inl (CommandError m))"
    by (cases "subprocess_run (opt_timeout opts) p") (simp_all add: execute_sync_command_def)
  have x1: "\<not> ((\<exists>x. ?r = Inr x) \<and> (\<exists>c e. ?r = Inl (CommandFailed c e)))"
    by auto
  have x2: "\<not> ((\<exists>x. ?r = Inr x) \<and> (\<exists>x. ?r = Inl (CommandTimeout x)))"
    by auto
  have x3: "\<not> ((\<exists>x. ?r = Inr x) \<and> (\<exists>m. ?r = Inl (CommandError m)))"
    by auto
  have x4: "\<not> ((\<exists>c e. ?r = Inl (CommandFailed c e)) \<and> (\<exists>x. ?r = Inl (CommandTimeout x)))"
    by auto
  have x5: "\<not> ((\<exists>c e. ?r = Inl (CommandFailed c e)) \<and> (\<exists>m. ?r = Inl (CommandError m)))"
    by auto
  have x6: "\<not> ((\<exists>x. ?r = Inl (CommandTimeout x)) \<and> (\<exists>m. ?r = Inl (CommandError m)))"
    by auto
  show ?thesis
    by (intro conjI) (fact c1 c2 c3 c4 c5 c6 x1 x2 x3 x4 x5 x6)+
qed

theorem execute_sync_command_outcomes_witness:
  "fst (execute_sync_command \<lparr>opt_sync = None, opt_cwd = None, opt_timeout = Some (1::nat)\<rparr>
          (Exits 5 0 ''done'' []) empty_world) = Inl (CommandTimeout 1)
   \<and> fst (execute_sync_command \<lparr>opt_sync = None, opt_cwd = None, opt_timeout = Some (10::nat)\<rparr>
          (Exits 5 0 ''done'' []) empty_world) = Inr ''done''
   \<and> fst (execute_sync_command \<lparr>opt_sync = None, opt_cwd = None, opt_timeout = (None::nat option)\<rparr>
          (Exits 5 2 [] ''no such file'') empty_world) = Inl (CommandFailed 2 ''no such file'')
   \<and> fst (execute_sync_command \<lparr>opt_sync = None, opt_cwd = None, opt_timeout = Some (1::nat)\<rparr>
          (CannotLaunch ''cwd'') empty_world) = Inl (CommandError ''cwd'')"
proof -
  let ?o1 = "\<lparr>opt_sync = None, opt_cwd = None, opt_timeout = Some (1::nat)\<rparr>"
  let ?o10 = "\<lparr>opt_sync = None, opt_cwd = None, opt_timeout = Some (10::nat)\<rparr>"
  let ?on = "\<lparr>opt_sync = None, opt_cwd = None, opt_timeout = (None::nat option)\<rparr>"
  have r1: "subprocess_run (opt_timeout ?o10) (Exits 5 0 ''done'' []) = Completed 0 ''done'' []"
    by (simp add: subprocess_run_def)
  have r2: "subprocess_run (opt_timeout ?on) (Exits (5::nat) 2 [] ''no such file'')
      = Completed 2 [] ''no such file''"
    by (simp add: subprocess_run_def)
  have a: "fst (execute_sync_command ?o1 (Exits 5 0 ''done'' []) empty_world)
      = Inl (CommandTimeout 1)"
    using execute_sync_command_outcomes
      [where opts = ?o1 and p = "Exits 5 0 ''done'' []" and w = empty_world and d = 5
        and rc = 0 and out = "''done''" and err = "[]" and t = 1]
    by simp
  have b: "fst (execute_sync_command ?o10 (Exits 5 0 ''done'' []) empty_world) = Inr ''done''"
    using execute_sync_command_outcomes
      [where opts = ?o10 and p = "Exits 5 0 ''done'' []" and w = empty_world
        and out = "''done''" and err = "[]"] r1
    by blast
  have c: "fst (execute_sync_command ?on (Exits 5 2 [] ''no such file'') empty_world)
      = Inl (CommandFailed 2 ''no such file'')"
    using execute_sync_command_outcomes
      [where opts = ?on and p = "Exits 5 2 [] ''no such file''" and w = empty_world
        and out = "[]" and err = "''no such file''" and rc = 2] r2
    by simp
  have d: "fst (execute_sync_command ?o1 (CannotLaunch ''cwd'') empty_world)
      = Inl (CommandError ''cwd'')"
    using execute_sync_command_outcomes
      [where opts = ?o1 and p = "CannotLaunch ''cwd''" and w = empty_world and msg = "''cwd''"]
    by simp
  show ?thesis
    using a b c d by blast
qed

section \<open>Properties of progress throttling\<close>

lemma progress_loop_None: "list_all polling polls \<Longrightarrow> progress_loop lp lt polls = None"
  by (induction polls arbitrary: lp lt) auto

lemma progress_loop_Some:
  "list_ex (\<lambda>p. \<not> polling p) polls \<Longrightarrow>
   progress_loop lp lt polls =
     Some (map line_of (throttled lp lt (takeWhile polling polls)) @ [Download_completed],
           failed (hd (dropWhile polling polls)))"
proof (induction polls arbitrary: lp lt)
  case Nil
  then show ?case by simp
next
  case (Cons p ps)
  show ?case
  proof (cases "polling p")
    case True
    then have "list_ex (\<lambda>p. \<not> polling p) ps"
      using Cons.prems by simp
    then show ?thesis
      using True Cons.IH by (simp add: should_log_def line_of_def)
  next
    case False
    then show ?thesis by simp
  qed
qed

lemma throttled_length: "length (throttled lp lt ps) \<le> length ps"
  by (induction ps arbitrary: lp lt) (auto simp add: le_SucI)

lemma throttled_spaced: "spaced lp lt (throttled lp lt ps)"
  by (induction ps arbitrary: lp lt) auto

lemma throttled_subset: "set (throttled lp lt ps) \<subseteq> set ps"
  by (induction ps arbitrary: lp lt) auto

text \<open>
  Claim C9. When some poll reads a progress of 100 or the failure flag, the loop ends
  at the first such poll: it has printed one line for each poll before it that the
  throttling rule selects, then the completion line, and it raises the download
  failure exactly when that poll has the failure flag. A poll is selected exactly when
  its percentage is at least 5 above the percentage of the last line, or its time at
  least 2000 ms after the time of the last line, or its percentage is 100 (before the
  first line the last percentage is -1 and the last time 0). The lines are never more
  than the polls, and each line satisfies the rule with respect to the line before it.
\<close>

theorem handle_download_progress_throttles:
  "(list_ex (\<lambda>p. \<not> polling p) polls \<longrightarrow>
      handle_download_progress polls =
        Some (map line_of (throttled (- 1) 0 (takeWhile polling polls)) @ [Download_completed],
              if failed (hd (dropWhile polling polls)) then Inl DownloadFailed else Inr ()))
   \<and> (list_all polling polls \<longrightarrow> handle_download_progress polls = None)
   \<and> throttled lp lt (p # ps) =
       (if body_progress p \<ge> lp + 5 \<or> now_ms p - lt \<ge> 2000 \<or> body_progress p = 100
        then p # throttled (body_progress p) (now_ms p) ps
        else throttled lp lt ps)
   \<and> length (throttled lp lt ps) \<le> length ps
   \<and> set (throttled lp lt ps) \<subseteq> set ps
   \<and> spaced lp lt (throttled lp lt ps)"
  using progress_loop_Some [of polls "- 1" 0] progress_loop_None [of polls "- 1" 0]
    throttled_length [of lp lt ps] throttled_spaced [of lp lt ps] throttled_subset [of lp lt ps]
  by (simp add: handle_download_progress_def)

theorem handle_download_progress_throttles_witness:
  "handle_download_progress simulated_polls =
     Some (map (\<lambda>k. Downloading (6 * int k) (1700000000000 + 300 * int k)) [0 ..< 17]
             @ [Download_completed],
           Inr ())
   \<and> handle_download_progress
       [\<lparr>seen_progress = 10, failed = False, body_progress = 10, now_ms = 1700000000000\<rparr>,
        \<lparr>seen_progress = 12, failed = True, body_progress = 12, now_ms = 1700000000100\<rparr>]
     = Some ([Downloading 10 1700000000000, Download_completed], Inl DownloadFailed)"
proof -
  let ?fail = "[\<lparr>seen_progress = 10, failed = False, body_progress = 10, now_ms = 1700000000000\<rparr>,
        \<lparr>seen_progress = 12, failed = True, body_progress = 12, now_ms = 1700000000100\<rparr>]"
  have e1: "list_ex (\<lambda>p. \<not> polling p) simulated_polls"
    by code_simp
  have v1: "map line_of (throttled (- 1) 0 (takeWhile polling simulated_polls))
      = map (\<lambda>k. Downloading (6 * int k) (1700000000000 + 300 * int k)) [0 ..< 17]"
    by code_simp
  have f1: "\<not> failed (hd (dropWhile polling simulated_polls))"
    by code_simp
  have e2: "list_ex (\<lambda>p. \<not> polling p) ?fail"
    by code_simp
  have v2: "map line_of (throttled (- 1) 0 (takeWhile polling ?fail))
      = [Downloading 10 1700000000000]"
    by code_simp
  have f2: "failed (hd (dropWhile polling ?fail))"
    by code_simp
  have a: "handle_download_progress simulated_polls =
     Some (map (\<lambda>k. Downloading (6 * int k) (1700000000000 + 300 * int k)) [0 ..< 17]
             @ [Download_completed], Inr ())"
    using handle_download_progress_throttles [of simulated_polls] e1 v1 f1 by simp
  have b: "handle_download_progress ?fail
     = Some ([Downloading 10 1700000000000, Download_completed], Inl DownloadFailed)"
    using handle_download_progress_throttles [of ?fail] e2 v2 f2 by simp
  show ?thesis
    using a b by blast
qed

section \<open>Properties of binary acquisition\<close>

lemma report_simps [simp]:
  "bins (report k w) = bins w"
  "transfers (report k w) = transfers w"
  "events (report k w) = events w @ [k]"
  "bins_lookup (report k w) f = bins_lookup w f"
  by (simp_all add: report_def bins_lookup_def)

lemma os_remove_Inr:
  "os_remove f w = Inr w' \<Longrightarrow>
   transfers w' = transfers w \<and> events w' = events w
   \<and> (\<forall>g. bins_lookup w' g = (if g = f then None else bins_lookup w g))"
  by (cases "bins w")
     (auto simp add: os_remove_def bins_lookup_def delete_conv'
        split: option.splits entry.splits)

lemma os_remove_file:
  "is_file w f \<Longrightarrow> \<exists>w'. os_remove f w = Inr w'"
  by (auto simp add: os_remove_def is_file_def split: option.splits entry.splits)

lemma os_chmod_Inr:
  "os_chmod f m w = Inr w' \<Longrightarrow>
   transfers w' = transfers w \<and> events w' = events w
   \<and> (\<forall>g. bins_lookup w' g
          = (if g = f then (case bins_lookup w f of Some (File n old) \<Rightarrow> Some (File n m)
                                                   | x \<Rightarrow> x)
             else bins_lookup w g))"
  by (cases "bins w")
     (auto simp add: os_chmod_def bins_lookup_def update_conv'
        split: option.splits entry.splits)

lemma os_chmod_exists:
  "bins_lookup w f \<noteq> None \<Longrightarrow> \<exists>w'. os_chmod f m w = Inr w'"
  by (auto simp add: os_chmod_def split: option.splits entry.splits)

lemma prune_loop_transfers: "transfers (prune_loop new fs w) = transfers w"
proof (induction fs arbitrary: w)
  case Nil
  then show ?case by simp
next
  case (Cons f fs)
  obtain b v pl where new: "new = (b, v, pl)"
    by (cases new) auto
  show ?case
  proof (cases "os_remove f (report ''bridges.tools.deleting_old_version'' w)")
    case (Inl err)
    then show ?thesis
      using Cons.IH new by (auto split: option.splits)
  next
    case (Inr w2)
    then show ?thesis
      using Cons.IH new os_remove_Inr [OF Inr] by (auto split: option.splits)
  qed
qed

lemma prune_loop_keeps:
  "\<not> superseded new g \<Longrightarrow> bins_lookup (prune_loop new fs w) g = bins_lookup w g"
proof (induction fs arbitrary: w)
  case Nil
  then show ?case by simp
next
  case (Cons f fs)
  obtain b v pl where new: "new = (b, v, pl)"
    by (cases new) auto
  show ?case
  proof (cases "superseded new f")
    case False
    then show ?thesis
      using Cons new by (auto simp add: superseded_def split: option.splits)
  next
    case True
    then have neq: "g \<noteq> f"
      using Cons.prems by auto
    show ?thesis
    proof (cases "os_remove f (report ''bridges.tools.deleting_old_version'' w)")
      case (Inl err)
      then show ?thesis
        using True new by (auto simp add: superseded_def split: option.splits)
    next
      case (Inr w2)
      then show ?thesis
        using True new neq Cons.IH [OF Cons.prems] os_remove_Inr [OF Inr]
        by (auto simp add: superseded_def split: option.splits)
    qed
  qed
qed

lemma prune_loop_removes:
  "distinct fs \<Longrightarrow> (\<forall>f \<in> set fs. superseded new f \<longrightarrow> is_file w f) \<Longrightarrow>
   bins_lookup (prune_loop new fs w) g
     = (if g \<in> set fs \<and> superseded new g then None else bins_lookup w g)"
proof (induction fs arbitrary: w)
  case Nil
  then show ?case by simp
next
  case (Cons f fs)
  obtain b v pl where new: "new = (b, v, pl)"
    by (cases new) auto
  show ?case
  proof (cases "superseded new f")
    case False
    have "bins_lookup (prune_loop new fs w) g
        = (if g \<in> set fs \<and> superseded new g then None else bins_lookup w g)"
      using Cons.IH [of w] Cons.prems by simp
    moreover have "prune_loop new (f # fs) w = prune_loop new fs w"
      using False new by (auto simp add: superseded_def split: option.splits)
    ultimately show ?thesis
      using False by auto
  next
    case True
    let ?w1 = "report ''bridges.tools.deleting_old_version'' w"
    have "is_file ?w1 f"
      using True Cons.prems by (simp add: is_file_def)
    then obtain w2 where rm: "os_remove f ?w1 = Inr w2"
      using os_remove_file by blast
    let ?w3 = "report ''bridges.tools.old_version_deleted'' w2"
    have look: "bins_lookup ?w3 h = (if h = f then None else bins_lookup w h)" for h
      using os_remove_Inr [OF rm] by simp
    have step: "prune_loop new (f # fs) w = prune_loop new fs ?w3"
      using True new rm by (auto simp add: superseded_def split: option.splits)
    have files: "\<forall>h \<in> set fs. superseded new h \<longrightarrow> is_file ?w3 h"
      using Cons.prems look by (auto simp add: is_file_def)
    have "bins_lookup (prune_loop new fs ?w3) g
        = (if g \<in> set fs \<and> superseded new g then None else bins_lookup ?w3 g)"
      using Cons.IH [of ?w3] Cons.prems files by simp
    then show ?thesis
      using step look True by auto
  qed
qed

lemma not_superseded_self: "version_match f = Some new \<Longrightarrow> \<not> superseded new f"
  by (cases new) (simp add: superseded_def)

lemma delete_older_transfers:
  "transfers (delete_older_binary_versions f w) = transfers w"
  by (simp add: delete_older_binary_versions_def prune_loop_transfers split: option.splits)

lemma delete_older_keeps_new:
  "bins_lookup (delete_older_binary_versions f w) f = bins_lookup w f"
  by (auto simp add: delete_older_binary_versions_def prune_loop_keeps not_superseded_self
        split: option.splits)

lemma makedirs_bins_simps [simp]:
  "transfers (makedirs_bins w) = transfers w"
  "bins (makedirs_bins w) \<noteq> None"
  "bins w \<noteq> None \<Longrightarrow> makedirs_bins w = w"
  by (auto simp add: makedirs_bins_def split: option.splits)

lemma write_file_transfers [simp]: "transfers (write_file f n w) = transfers w"
  by (simp add: write_file_def split: option.splits entry.splits)

lemma dl_start_transfers [simp]: "transfers (dl_start e url f w) = transfers w @ [url]"
  by (simp add: dl_start_def Let_def split: option.splits)

lemma remove_quarantine_simps [simp]:
  "transfers (remove_quarantine_attribute e w) = transfers w"
  "bins_lookup (remove_quarantine_attribute e w) f = bins_lookup w f"
  by (simp_all add: remove_quarantine_attribute_def split: option.splits)

lemma download_binary_transfers:
  "transfers (snd (download_binary e url f w)) = transfers w @ [url]"
  by (simp add: download_binary_def Let_def)

lemma download_binary_Inr:
  "download_binary e url f w = (Inr u, w') \<Longrightarrow> bins_lookup w' f \<noteq> None"
  by (auto simp add: download_binary_def Let_def missing_or_empty_def
        split: if_splits option.splits)

lemma download_binary_on_demand_transfers:
  "transfers (snd (download_binary_on_demand e n url f w)) = transfers w @ [url]"
proof -
  let ?w1 = "report ''bridges.tools.binary_not_found'' w"
  obtain r w2 where d: "download_binary e url f ?w1 = (r, w2)"
    by (cases "download_binary e url f ?w1") auto
  have t2: "transfers w2 = transfers w @ [url]"
    using download_binary_transfers [of e url f ?w1] d by simp
  show ?thesis
  proof (cases r)
    case (Inl err)
    then show ?thesis
      using d t2 by (simp add: download_binary_on_demand_def)
  next
    case (Inr u)
    let ?w4 = "delete_older_binary_versions f (report ''bridges.tools.binary_downloaded'' w2)"
    have t4: "transfers ?w4 = transfers w @ [url]"
      using t2 by (simp add: delete_older_transfers)
    show ?thesis
    proof (cases "os_chmod f 493 (report ''bridges.tools.making_executable'' ?w4)")
      case (Inl err)
      then show ?thesis
        using d Inr t4 by (simp add: download_binary_on_demand_def Let_def)
    next
      case chmod: (Inr w5)
      have "transfers w5 = transfers w @ [url]"
        using os_chmod_Inr [OF chmod] t4 by simp
      then show ?thesis
        using d Inr t4 chmod by (simp add: download_binary_on_demand_def Let_def)
    qed
  qed
qed

lemma download_binary_on_demand_after_download:
  assumes d: "download_binary e url f (report ''bridges.tools.binary_not_found'' w) = (Inr u, w2)"
  shows "fst (download_binary_on_demand e n url f w) = Inr ()
         \<and> bins_lookup (snd (download_binary_on_demand e n url f w)) f \<noteq> None"
proof -
  let ?w4 = "delete_older_binary_versions f (report ''bridges.tools.binary_downloaded'' w2)"
  have ex: "bins_lookup ?w4 f \<noteq> None"
    using download_binary_Inr [OF d] by (simp add: delete_older_keeps_new)
  show ?thesis
  proof (cases "is_windows (platform e)")
    case True
    then show ?thesis
      using d ex by (simp add: download_binary_on_demand_def Let_def)
  next
    case False
    obtain w5 where chmod: "os_chmod f 493 (report ''bridges.tools.making_executable'' ?w4) = Inr w5"
      using os_chmod_exists [of "report ''bridges.tools.making_executable'' ?w4" f 493] ex
      by auto
    have "bins_lookup w5 f \<noteq> None"
      using os_chmod_Inr [OF chmod] ex by (auto split: option.splits entry.splits)
    then show ?thesis
      using d False chmod by (simp add: download_binary_on_demand_def Let_def)
  qed
qed

lemma download_binary_on_demand_Inr:
  assumes "download_binary_on_demand e n url f w = (Inr u, w')"
  shows "bins_lookup w' f \<noteq> None"
proof -
  let ?w1 = "report ''bridges.tools.binary_not_found'' w"
  obtain r w2 where d: "download_binary e url f ?w1 = (r, w2)"
    by (cases "download_binary e url f ?w1") auto
  show ?thesis
  proof (cases r)
    case (Inl err)
    then show ?thesis
      using d assms by (simp add: download_binary_on_demand_def)
  next
    case (Inr v)
    then show ?thesis
      using download_binary_on_demand_after_download [of e url f w v w2 n] d assms by simp
  qed
qed

lemma resolved_binary_Some:
  assumes "resolved_binary e = Some (url, exe)"
  shows "\<exists>config parsed.
           load e (tool_config_name e) = Inr config
           \<and> get_binary_url (platform e) config = Some url \<and> url \<noteq> []
           \<and> urlparse e url = Some parsed
           \<and> exe = (if is_windows (platform e)
                         \<and> \<not> endswith (basename (platform e) (url_path parsed)) ''.exe''
                      then basename (platform e) (url_path parsed) @ ''.exe''
                      else basename (platform e) (url_path parsed))"
proof (cases "load e (tool_config_name e)")
  case (Inl err)
  then show ?thesis
    using assms by (simp add: resolved_binary_def)
next
  case (Inr config)
  show ?thesis
  proof (cases "get_binary_url (platform e) config")
    case None
    then show ?thesis
      using assms Inr by (simp add: resolved_binary_def)
  next
    case (Some u)
    show ?thesis
    proof (cases "u = []")
      case True
      then show ?thesis
        using assms Inr Some by (simp add: resolved_binary_def)
    next
      case False
      show ?thesis
      proof (cases "urlparse e u")
        case None
        then show ?thesis
          using assms Inr Some False by (simp add: resolved_binary_def)
      next
        case parsed: (Some parsed)
        then show ?thesis
          using assms Inr Some False by (auto simp add: resolved_binary_def Let_def)
      qed
    qed
  qed
qed

lemma get_binary_path_resolved:
  assumes "resolved_binary e = Some (url, exe)"
  shows "get_binary_path e n False w =
     (let w1 = report ''bridges.tools.checking_binary'' w;
          w2 = (if bins w1 = None
                then makedirs_bins (report ''bridges.tools.creating_bins_directory'' w1)
                else w1)
      in case (if bins_lookup w2 exe = None
               then download_binary_on_demand e n url exe w2
               else (Inr (), w2)) of
           (Inl err, w3) \<Rightarrow> (Inl err, w3)
         | (Inr u, w3) \<Rightarrow>
             (case (if \<not> is_windows (platform e)
                    then os_chmod exe 493 (report ''bridges.tools.applying_permissions'' w3)
                    else Inr w3) of
                Inl err \<Rightarrow> (Inl err, report ''bridges.tools.applying_permissions'' w3)
              | Inr w4 \<Rightarrow> (Inr (bins_path e @ [exe]), report ''bridges.tools.binary_ready'' w4)))"
proof -
  obtain config parsed where l: "load e (tool_config_name e) = Inr config"
    and u: "get_binary_url (platform e) config = Some url" and ne: "url \<noteq> []"
    and p: "urlparse e url = Some parsed"
    and x: "exe = (if is_windows (platform e)
                         \<and> \<not> endswith (basename (platform e) (url_path parsed)) ''.exe''
                      then basename (platform e) (url_path parsed) @ ''.exe''
                      else basename (platform e) (url_path parsed))"
    using resolved_binary_Some [OF assms] by blast
  show ?thesis
    unfolding get_binary_path_def
    by (simp only: l u p ne x [symmetric] sum.case option.case if_False Let_def)
qed

lemma get_binary_path_unresolved:
  assumes "resolved_binary e = None"
  shows "\<exists>err. fst (get_binary_path e n False w) = Inl err"
    and "transfers (snd (get_binary_path e n False w)) = transfers w"
    and "bins (snd (get_binary_path e n False w)) = bins w"
proof -
  have "(\<exists>err. fst (get_binary_path e n False w) = Inl err)
      \<and> transfers (snd (get_binary_path e n False w)) = transfers w
      \<and> bins (snd (get_binary_path e n False w)) = bins w"
  proof (cases "load e (tool_config_name e)")
    case (Inl err)
    then show ?thesis
      by (simp add: get_binary_path_def)
  next
    case (Inr config)
    show ?thesis
    proof (cases "get_binary_url (platform e) config")
      case None
      then show ?thesis
        using Inr by (simp add: get_binary_path_def)
    next
      case (Some u)
      show ?thesis
      proof (cases "u = []")
        case True
        then show ?thesis
          using Inr Some by (simp add: get_binary_path_def)
      next
        case False
        show ?thesis
        proof (cases "urlparse e u")
          case None
          then show ?thesis
            using Inr Some False by (simp add: get_binary_path_def)
        next
          case parsed: (Some parsed)
          then have "resolved_binary e \<noteq> None"
            using Inr Some False by (simp add: resolved_binary_def Let_def)
          then show ?thesis
            using assms by simp
        qed
      qed
    qed
  qed
  then show "\<exists>err. fst (get_binary_path e n False w) = Inl err"
    and "transfers (snd (get_binary_path e n False w)) = transfers w"
    and "bins (snd (get_binary_path e n False w)) = bins w"
    by blast+
qed

lemma get_binary_path_present:
  assumes r: "resolved_binary e = Some (url, exe)" and ex: "bins_lookup w exe \<noteq> None"
  shows "\<exists>w'. get_binary_path e n False w = (Inr (bins_path e @ [exe]), w')
           \<and> transfers w' = transfers w
           \<and> (\<forall>g. bins_lookup w' g
                  = (if g = exe \<and> \<not> is_windows (platform e)
                     then (case bins_lookup w exe of
                             Some (File sz old) \<Rightarrow> Some (File sz 493)
                           | x \<Rightarrow> x)
                     else bins_lookup w g))"
proof -
  let ?w1 = "report ''bridges.tools.checking_binary'' w"
  have b: "(bins ?w1 = None) = False"
    using ex by (auto simp add: bins_lookup_def split: option.splits)
  have l1: "(bins_lookup ?w1 exe = None) = False"
    using ex by simp
  have eq0: "get_binary_path e n False w =
      (case (if \<not> is_windows (platform e)
             then os_chmod exe 493 (report ''bridges.tools.applying_permissions'' ?w1)
             else Inr ?w1) of
         Inl err \<Rightarrow> (Inl err, report ''bridges.tools.applying_permissions'' ?w1)
       | Inr w4 \<Rightarrow> (Inr (bins_path e @ [exe]), report ''bridges.tools.binary_ready'' w4))"
    by (simp only: get_binary_path_resolved [OF r] Let_def b l1 if_False prod.case sum.case)
  show ?thesis
  proof (cases "is_windows (platform e)")
    case True
    then show ?thesis
      using eq0 by simp
  next
    case False
    let ?w3 = "report ''bridges.tools.applying_permissions'' ?w1"
    obtain w4 where chmod: "os_chmod exe 493 ?w3 = Inr w4"
      using os_chmod_exists [of ?w3 exe 493] l1 by auto
    have eq: "get_binary_path e n False w
        = (Inr (bins_path e @ [exe]), report ''bridges.tools.binary_ready'' w4)"
      using eq0 False chmod by simp
    show ?thesis
      using eq os_chmod_Inr [OF chmod] False by simp
  qed
qed

lemma get_binary_path_success_present:
  assumes s: "get_binary_path e n False w = (Inr p, w')"
  shows "\<exists>url exe. resolved_binary e = Some (url, exe) \<and> bins_lookup w' exe \<noteq> None"
proof (cases "resolved_binary e")
  case None
  then show ?thesis
    using get_binary_path_unresolved(1) [OF None, of n w] s by simp
next
  case (Some ue)
  obtain url exe where r: "resolved_binary e = Some (url, exe)"
    using Some by (cases ue) auto
  let ?w1 = "report ''bridges.tools.checking_binary'' w"
  let ?w2 = "if bins ?w1 = None
             then makedirs_bins (report ''bridges.tools.creating_bins_directory'' ?w1)
             else ?w1"
  obtain r3 w3 where step: "(if bins_lookup ?w2 exe = None
               then download_binary_on_demand e n url exe ?w2
               else (Inr (), ?w2)) = (r3, w3)"
    by (cases "if bins_lookup ?w2 exe = None
               then download_binary_on_demand e n url exe ?w2
               else (Inr (), ?w2)") auto
  have eq: "get_binary_path e n False w =
      (case (r3, w3) of
         (Inl err, w3) \<Rightarrow> (Inl err, w3)
       | (Inr u, w3) \<Rightarrow>
           (case (if \<not> is_windows (platform e)
                  then os_chmod exe 493 (report ''bridges.tools.applying_permissions'' w3)
                  else Inr w3) of
              Inl err \<Rightarrow> (Inl err, report ''bridges.tools.applying_permissions'' w3)
            | Inr w4 \<Rightarrow> (Inr (bins_path e @ [exe]), report ''bridges.tools.binary_ready'' w4)))"
    using get_binary_path_resolved [OF r, of n w] step by (simp only: Let_def)
  obtain u where r3: "r3 = Inr u"
    using eq s by (cases r3) auto
  have l3: "bins_lookup w3 exe \<noteq> None"
  proof (cases "bins_lookup ?w2 exe = None")
    case True
    then have "download_binary_on_demand e n url exe ?w2 = (Inr u, w3)"
      using step r3 by simp
    then show ?thesis
      by (rule download_binary_on_demand_Inr)
  next
    case False
    then show ?thesis
      using step by auto
  qed
  have "bins_lookup w' exe \<noteq> None"
  proof (cases "is_windows (platform e)")
    case True
    then show ?thesis
      using eq s r3 l3 by auto
  next
    case False
    obtain w4 where chmod: "os_chmod exe 493 (report ''bridges.tools.applying_permissions'' w3)
        = Inr w4"
      using os_chmod_exists [of "report ''bridges.tools.applying_permissions'' w3" exe 493] l3
      by auto
    have "w' = report ''bridges.tools.binary_ready'' w4"
      using eq s r3 False chmod by simp
    then show ?thesis
      using os_chmod_Inr [OF chmod] l3 by (auto split: option.splits entry.splits)
  qed
  then show ?thesis
    using r by blast
qed

lemma get_binary_path_transfers:
  "length (transfers (snd (get_binary_path e n skip w))) \<le> Suc (length (transfers w))"
proof (cases skip)
  case True
  then show ?thesis
    by (simp add: get_binary_path_def)
next
  case False
  show ?thesis
  proof (cases "resolved_binary e")
    case None
    then show ?thesis
      using get_binary_path_unresolved(2) [OF None, of n w] False by simp
  next
    case (Some ue)
    obtain url exe where r: "resolved_binary e = Some (url, exe)"
      using Some by (cases ue) auto
    define w2 where "w2 =
      (if bins (report ''bridges.tools.checking_binary'' w) = None
       then makedirs_bins (report ''bridges.tools.creating_bins_directory''
              (report ''bridges.tools.checking_binary'' w))
       else report ''bridges.tools.checking_binary'' w)"
    obtain r3 w3 where step: "(if bins_lookup w2 exe = None
                 then download_binary_on_demand e n url exe w2
                 else (Inr (), w2)) = (r3, w3)"
      by (cases "if bins_lookup w2 exe = None
                 then download_binary_on_demand e n url exe w2
                 else (Inr (), w2)") auto
    have t2: "transfers w2 = transfers w"
      by (simp add: w2_def)
    have t3: "length (transfers w3) \<le> Suc (length (transfers w))"
    proof (cases "bins_lookup w2 exe = None")
      case True
      then have "w3 = snd (download_binary_on_demand e n url exe w2)"
        using step by simp
      then show ?thesis
        using download_binary_on_demand_transfers [of e n url exe w2] t2 by simp
    next
      case False
      then have "w3 = w2"
        using step by (auto split: if_splits)
      then show ?thesis
        using t2 by simp
    qed
    have eq: "get_binary_path e n False w =
        (case (r3, w3) of
           (Inl err, w3) \<Rightarrow> (Inl err, w3)
         | (Inr u, w3) \<Rightarrow>
             (case (if \<not> is_windows (platform e)
                    then os_chmod exe 493 (report ''bridges.tools.applying_permissions'' w3)
                    else Inr w3) of
                Inl err \<Rightarrow> (Inl err, report ''bridges.tools.applying_permissions'' w3)
              | Inr w4 \<Rightarrow> (Inr (bins_path e @ [exe]), report ''bridges.tools.binary_ready'' w4)))"
      using get_binary_path_resolved [OF r, of n w] step
      unfolding w2_def by (simp only: Let_def)
    have "transfers (snd (get_binary_path e n False w)) = transfers w3"
    proof (cases r3)
      case (Inl err)
      then show ?thesis
        using eq by simp
    next
      case (Inr u)
      show ?thesis
      proof (cases "if \<not> is_windows (platform e)
                    then os_chmod exe 493 (report ''bridges.tools.applying_permissions'' w3)
                    else Inr w3")
        case (Inl err)
        then show ?thesis
          using eq Inr by simp
      next
        case chmod: (Inr w4)
        have "transfers w4 = transfers w3"
        proof (cases "is_windows (platform e)")
          case True
          then show ?thesis
            using chmod by simp
        next
          case False
          then have "os_chmod exe 493 (report ''bridges.tools.applying_permissions'' w3) = Inr w4"
            using chmod by simp
          then show ?thesis
            using os_chmod_Inr by fastforce
        qed
        then show ?thesis
          using eq Inr chmod by simp
      qed
    qed
    then show ?thesis
      using t3 False by simp
  qed
qed

lemma os_remove_not_file:
  "\<not> is_file w f \<Longrightarrow> \<exists>err. os_remove f w = Inl err"
  by (auto simp add: os_remove_def is_file_def split: option.splits entry.splits)

lemma prune_loop_stops:
  "distinct (pre @ f # post) \<Longrightarrow> (\<forall>h \<in> set pre. superseded new h \<longrightarrow> is_file w h)
   \<Longrightarrow> superseded new f \<Longrightarrow> \<not> is_file w f \<Longrightarrow>
   (\<forall>g. bins_lookup (prune_loop new (pre @ f # post) w) g
          = (if g \<in> set pre \<and> superseded new g then None else bins_lookup w g))
   \<and> (\<exists>evs. events (prune_loop new (pre @ f # post) w)
               = events w @ evs @ [''bridges.tools.deleting_old_version'',
                                   ''bridges.tools.cleanup_warning''])"
proof (induction pre arbitrary: w)
  case Nil
  obtain b v pl where new: "new = (b, v, pl)"
    by (cases new) auto
  let ?w1 = "report ''bridges.tools.deleting_old_version'' w"
  have "\<not> is_file ?w1 f"
    using Nil.prems by (simp add: is_file_def)
  then obtain err where rm: "os_remove f ?w1 = Inl err"
    using os_remove_not_file by blast
  have step: "prune_loop new (f # post) w = report ''bridges.tools.cleanup_warning'' ?w1"
    using Nil.prems(3) new rm by (auto simp add: superseded_def split: option.splits)
  show ?case
    unfolding append_Nil step by simp
next
  case (Cons h pre)
  obtain b v pl where new: "new = (b, v, pl)"
    by (cases new) auto
  have d: "distinct (pre @ f # post)" and hf: "h \<noteq> f" and hpre: "h \<notin> set pre"
    using Cons.prems(1) by auto
  show ?case
  proof (cases "superseded new h")
    case False
    have step: "prune_loop new ((h # pre) @ f # post) w = prune_loop new (pre @ f # post) w"
      using False new by (auto simp add: superseded_def split: option.splits)
    have "(\<forall>g. bins_lookup (prune_loop new (pre @ f # post) w) g
          = (if g \<in> set pre \<and> superseded new g then None else bins_lookup w g))
       \<and> (\<exists>evs. events (prune_loop new (pre @ f # post) w)
               = events w @ evs @ [''bridges.tools.deleting_old_version'',
                                   ''bridges.tools.cleanup_warning''])"
      using Cons.IH [of w] d Cons.prems by simp
    then show ?thesis
      unfolding step using False by auto
  next
    case True
    let ?w1 = "report ''bridges.tools.deleting_old_version'' w"
    have "is_file ?w1 h"
      using True Cons.prems(2) by (simp add: is_file_def)
    then obtain w2 where rm: "os_remove h ?w1 = Inr w2"
      using os_remove_file by blast
    let ?w3 = "report ''bridges.tools.old_version_deleted'' w2"
    have look: "bins_lookup ?w3 g = (if g = h then None else bins_lookup w g)" for g
      using os_remove_Inr [OF rm] by simp
    have ev: "events ?w3 = events w @ [''bridges.tools.deleting_old_version'',
        ''bridges.tools.old_version_deleted'']"
      using os_remove_Inr [OF rm] by simp
    have step: "prune_loop new ((h # pre) @ f # post) w = prune_loop new (pre @ f # post) ?w3"
      using True new rm by (auto simp add: superseded_def split: option.splits)
    have files: "\<forall>g \<in> set pre. superseded new g \<longrightarrow> is_file ?w3 g"
      using Cons.prems(2) look hpre by (auto simp add: is_file_def)
    have nf: "\<not> is_file ?w3 f"
      using Cons.prems(4) look hf by (simp add: is_file_def)
    have ih: "(\<forall>g. bins_lookup (prune_loop new (pre @ f # post) ?w3) g
          = (if g \<in> set pre \<and> superseded new g then None else bins_lookup ?w3 g))
       \<and> (\<exists>evs. events (prune_loop new (pre @ f # post) ?w3)
               = events ?w3 @ evs @ [''bridges.tools.deleting_old_version'',
                                     ''bridges.tools.cleanup_warning''])"
      using Cons.IH [of ?w3] d files Cons.prems(3) nf by blast
    then obtain evs where evs: "events (prune_loop new (pre @ f # post) ?w3)
               = events ?w3 @ evs @ [''bridges.tools.deleting_old_version'',
                                     ''bridges.tools.cleanup_warning'']"
      by blast
    have e2: "\<exists>evs'. events (prune_loop new (pre @ f # post) ?w3)
               = events w @ evs' @ [''bridges.tools.deleting_old_version'',
                                    ''bridges.tools.cleanup_warning'']"
      unfolding evs ev
      by (rule exI [of _ "[''bridges.tools.deleting_old_version'',
            ''bridges.tools.old_version_deleted''] @ evs"]) simp
    have l2: "\<forall>g. bins_lookup (prune_loop new (pre @ f # post) ?w3) g
          = (if g \<in> set (h # pre) \<and> superseded new g then None else bins_lookup w g)"
      using ih look True by auto
    show ?thesis
      unfolding step using l2 e2 by blast
  qed
qed

text \<open>
  Claim C3, as amended. A new file name that does not match the pattern leaves the
  directory as it is. Otherwise an entry is deleted only if it matches the pattern
  with the base name and the platform of the new file and another version: every
  other entry, the new file among them, is kept as it is. When the listing has no
  name twice and every superseded entry is a file (no removal raises), all superseded
  entries are deleted. When the removal of a superseded entry raises, the pruning ends
  there: the superseded files listed before that entry are deleted, that entry and
  everything listed after it are kept, and the last events reported are the
  deletion attempt and the cleanup warning. The acquisition goes on all the same:
  after a download that succeeded, the on-demand download succeeds.
\<close>

theorem delete_older_binary_versions_prunes:
  "(version_match new_executable = None
      \<longrightarrow> delete_older_binary_versions new_executable w = w)
   \<and> superseded (b, v, pl) f = (\<exists>v'. version_match f = Some (b, v', pl) \<and> v' \<noteq> v)
   \<and> (version_match new_executable = Some new \<and> \<not> superseded new g
      \<longrightarrow> bins_lookup (delete_older_binary_versions new_executable w) g = bins_lookup w g)
   \<and> bins_lookup (delete_older_binary_versions new_executable w) new_executable
       = bins_lookup w new_executable
   \<and> (version_match new_executable = Some new \<and> bins w = Some es \<and> distinct (map fst es)
        \<and> (\<forall>f \<in> set (map fst es). superseded new f \<longrightarrow> is_file w f)
      \<longrightarrow> bins_lookup (delete_older_binary_versions new_executable w) g
            = (if superseded new g then None else bins_lookup w g))
   \<and> (version_match new_executable = Some new \<and> bins w = Some es
        \<and> map fst es = pre @ d # post \<and> distinct (map fst es)
        \<and> (\<forall>h \<in> set pre. superseded new h \<longrightarrow> is_file w h)
        \<and> superseded new d \<and> \<not> is_file w d
      \<longrightarrow> (\<forall>k. bins_lookup (delete_older_binary_versions new_executable w) k
                 = (if k \<in> set pre \<and> superseded new k then None else bins_lookup w k))
         \<and> (\<exists>evs. events (delete_older_binary_versions new_executable w)
                     = events w @ evs @ [''bridges.tools.deleting_old_version'',
                                         ''bridges.tools.cleanup_warning'']))
   \<and> (download_binary e url new_executable (report ''bridges.tools.binary_not_found'' w)
        = (Inr (), w2)
      \<longrightarrow> fst (download_binary_on_demand e n url new_executable w) = Inr ())"
proof -
  have c1: "version_match new_executable = None
      \<longrightarrow> delete_older_binary_versions new_executable w = w"
    by (simp add: delete_older_binary_versions_def)
  have c2: "superseded (b, v, pl) f = (\<exists>v'. version_match f = Some (b, v', pl) \<and> v' \<noteq> v)"
    by (auto simp add: superseded_def split: option.splits)
  have c3: "version_match new_executable = Some new \<and> \<not> superseded new g
      \<longrightarrow> bins_lookup (delete_older_binary_versions new_executable w) g = bins_lookup w g"
    by (auto simp add: delete_older_binary_versions_def prune_loop_keeps split: option.splits)
  have c4: "bins_lookup (delete_older_binary_versions new_executable w) new_executable
       = bins_lookup w new_executable"
    by (rule delete_older_keeps_new)
  have c5: "version_match new_executable = Some new \<and> bins w = Some es \<and> distinct (map fst es)
        \<and> (\<forall>f \<in> set (map fst es). superseded new f \<longrightarrow> is_file w f)
      \<longrightarrow> bins_lookup (delete_older_binary_versions new_executable w) g
            = (if superseded new g then None else bins_lookup w g)"
  proof (intro impI)
    assume h: "version_match new_executable = Some new \<and> bins w = Some es
        \<and> distinct (map fst es)
        \<and> (\<forall>f \<in> set (map fst es). superseded new f \<longrightarrow> is_file w f)"
    then have "bins_lookup (prune_loop new (map fst es) w) g
        = (if g \<in> set (map fst es) \<and> superseded new g then None else bins_lookup w g)"
      using prune_loop_removes [of "map fst es" new w g] by blast
    moreover have "g \<notin> set (map fst es) \<Longrightarrow> bins_lookup w g = None"
      using h by (simp add: bins_lookup_def map_of_eq_None_iff)
    ultimately show "bins_lookup (delete_older_binary_versions new_executable w) g
        = (if superseded new g then None else bins_lookup w g)"
      using h by (auto simp add: delete_older_binary_versions_def)
  qed
  have c6: "download_binary e url new_executable (report ''bridges.tools.binary_not_found'' w)
        = (Inr (), w2)
      \<longrightarrow> fst (download_binary_on_demand e n url new_executable w) = Inr ()"
    using download_binary_on_demand_after_download [of e url new_executable w "()" w2 n]
    by blast
  have c7: "version_match new_executable = Some new \<and> bins w = Some es
        \<and> map fst es = pre @ d # post \<and> distinct (map fst es)
        \<and> (\<forall>h \<in> set pre. superseded new h \<longrightarrow> is_file w h)
        \<and> superseded new d \<and> \<not> is_file w d
      \<longrightarrow> (\<forall>k. bins_lookup (delete_older_binary_versions new_executable w) k
                 = (if k \<in> set pre \<and> superseded new k then None else bins_lookup w k))
         \<and> (\<exists>evs. events (delete_older_binary_versions new_executable w)
                     = events w @ evs @ [''bridges.tools.deleting_old_version'',
                                         ''bridges.tools.cleanup_warning''])"
  proof (intro impI)
    assume h: "version_match new_executable = Some new \<and> bins w = Some es
        \<and> map fst es = pre @ d # post \<and> distinct (map fst es)
        \<and> (\<forall>h \<in> set pre. superseded new h \<longrightarrow> is_file w h)
        \<and> superseded new d \<and> \<not> is_file w d"
    have eq: "delete_older_binary_versions new_executable w
        = prune_loop new (pre @ d # post) w"
      using h by (simp add: delete_older_binary_versions_def)
    have dist: "distinct (pre @ d # post)"
      using h by metis
    show "(\<forall>k. bins_lookup (delete_older_binary_versions new_executable w) k
                 = (if k \<in> set pre \<and> superseded new k then None else bins_lookup w k))
         \<and> (\<exists>evs. events (delete_older_binary_versions new_executable w)
                     = events w @ evs @ [''bridges.tools.deleting_old_version'',
                                         ''bridges.tools.cleanup_warning''])"
      unfolding eq using prune_loop_stops [of pre d post new w] dist h by blast
  qed
  show ?thesis
    by (intro conjI) (fact c1 c2 c3 c4 c5 c7 c6)+
qed

theorem delete_older_binary_versions_prunes_witness:
  "delete_older_binary_versions ''ffmpeg'' old_versions_world = old_versions_world
   \<and> bins_lookup (delete_older_binary_versions ''tool_1.1.0-linux-x86_64'' old_versions_world)
        ''tool_1.0.0-win-amd64.exe'' = Some (File 11 420)
   \<and> bins_lookup (delete_older_binary_versions ''tool_1.1.0-linux-x86_64'' old_versions_world)
        ''other_1.0.0-linux-x86_64'' = Some (File 9 493)
   \<and> bins_lookup (delete_older_binary_versions ''tool_1.1.0-linux-x86_64'' old_versions_world)
        ''tool_1.1.0-linux-x86_64'' = Some (File 12 420)
   \<and> bins_lookup (delete_older_binary_versions ''tool_1.1.0-linux-x86_64'' old_versions_world)
        ''tool_1.0.0-linux-x86_64'' = None
   \<and> fst (download_binary_on_demand example_env ''ffmpeg''
           ''https://example.com/releases/tool_1.1.0-linux-x86_64''
           ''tool_1.1.0-linux-x86_64'' cluttered_world) = Inr ()
   \<and> bins_lookup (delete_older_binary_versions ''tool_1.1.0-linux-x86_64'' blocked_world)
        ''tool_0.8.0-linux-x86_64'' = None
   \<and> bins_lookup (delete_older_binary_versions ''tool_1.1.0-linux-x86_64'' blocked_world)
        ''tool_1.0.0-linux-x86_64'' = Some (File 10 493)
   \<and> (\<exists>evs. events (delete_older_binary_versions ''tool_1.1.0-linux-x86_64'' blocked_world)
          = evs @ [''bridges.tools.deleting_old_version'', ''bridges.tools.cleanup_warning''])"
proof -
  let ?new = "''tool_1.1.0-linux-x86_64''"
  let ?key = "(''tool'', ''1.1.0'', ''linux-x86_64'')"
  let ?es = "[(''tool_1.0.0-linux-x86_64'', File 10 493),
         (''tool_1.0.0-win-amd64.exe'', File 11 420),
         (''other_1.0.0-linux-x86_64'', File 9 493),
         (''notes.txt'', File 3 420),
         (''tool_1.1.0-linux-x86_64'', File 12 420)]"
  let ?url = "''https://example.com/releases/tool_1.1.0-linux-x86_64''"
  have m0: "version_match ''ffmpeg'' = None"
    by code_simp
  have m1: "version_match ?new = Some ?key"
    by code_simp
  have s1: "\<not> superseded ?key ''tool_1.0.0-win-amd64.exe''"
    "\<not> superseded ?key ''other_1.0.0-linux-x86_64''"
    "superseded ?key ''tool_1.0.0-linux-x86_64''"
    by code_simp+
  have l1: "bins_lookup old_versions_world ''tool_1.0.0-win-amd64.exe'' = Some (File 11 420)"
    "bins_lookup old_versions_world ''other_1.0.0-linux-x86_64'' = Some (File 9 493)"
    "bins_lookup old_versions_world ''tool_1.1.0-linux-x86_64'' = Some (File 12 420)"
    by code_simp+
  have b: "bins old_versions_world = Some ?es"
    by (simp add: old_versions_world_def)
  have d: "distinct (map fst ?es)"
    by code_simp
  have fl: "\<forall>f \<in> set (map fst ?es). superseded ?key f \<longrightarrow> is_file old_versions_world f"
    by code_simp
  have dl: "download_binary example_env ?url ?new
        (report ''bridges.tools.binary_not_found'' cluttered_world)
      = (Inr (), snd (download_binary example_env ?url ?new
           (report ''bridges.tools.binary_not_found'' cluttered_world)))"
  proof -
    have "fst (download_binary example_env ?url ?new
        (report ''bridges.tools.binary_not_found'' cluttered_world)) = Inr ()"
      by code_simp
    then show ?thesis
      by (metis prod.collapse)
  qed
  have r0: "delete_older_binary_versions ''ffmpeg'' old_versions_world = old_versions_world"
    using delete_older_binary_versions_prunes [where new_executable = "''ffmpeg''"] m0
    by blast
  have r1: "bins_lookup (delete_older_binary_versions ?new old_versions_world)
        ''tool_1.0.0-win-amd64.exe'' = Some (File 11 420)"
    using delete_older_binary_versions_prunes
      [where new_executable = ?new and new = ?key and g = "''tool_1.0.0-win-amd64.exe''"
        and w = old_versions_world] m1 s1(1) l1(1)
    by simp
  have r2: "bins_lookup (delete_older_binary_versions ?new old_versions_world)
        ''other_1.0.0-linux-x86_64'' = Some (File 9 493)"
    using delete_older_binary_versions_prunes
      [where new_executable = ?new and new = ?key and g = "''other_1.0.0-linux-x86_64''"
        and w = old_versions_world] m1 s1(2) l1(2)
    by simp
  have r3: "bins_lookup (delete_older_binary_versions ?new old_versions_world) ?new
      = Some (File 12 420)"
    using delete_older_binary_versions_prunes
      [where new_executable = ?new and w = old_versions_world] l1(3)
    by simp
  have r4: "bins_lookup (delete_older_binary_versions ?new old_versions_world)
        ''tool_1.0.0-linux-x86_64'' = None"
    using delete_older_binary_versions_prunes
      [where new_executable = ?new and new = ?key and g = "''tool_1.0.0-linux-x86_64''"
        and w = old_versions_world and es = ?es] m1 s1(3) b d fl
    by simp
  have r5: "fst (download_binary_on_demand example_env ''ffmpeg'' ?url ?new cluttered_world)
      = Inr ()"
    using delete_older_binary_versions_prunes
      [where new_executable = ?new and w = cluttered_world and e = example_env and url = ?url
        and n = "''ffmpeg''"
        and ?w2.0 = "snd (download_binary example_env ?url ?new
           (report ''bridges.tools.binary_not_found'' cluttered_world))"] dl
    by blast
  let ?bs = "[(''tool_0.8.0-linux-x86_64'', File 8 493),
         (''tool_0.9.0-linux-x86_64'', Dir []),
         (''tool_1.0.0-linux-x86_64'', File 10 493),
         (''tool_1.1.0-linux-x86_64'', File 12 420)]"
  have bb: "bins blocked_world = Some ?bs"
    by (simp add: blocked_world_def)
  have bl: "map fst ?bs = [''tool_0.8.0-linux-x86_64''] @ ''tool_0.9.0-linux-x86_64''
      # [''tool_1.0.0-linux-x86_64'', ''tool_1.1.0-linux-x86_64'']"
    by simp
  have bd: "distinct (map fst ?bs)"
    by code_simp
  have bf: "\<forall>h \<in> set [''tool_0.8.0-linux-x86_64'']. superseded ?key h \<longrightarrow> is_file blocked_world h"
    by code_simp
  have bs: "superseded ?key ''tool_0.9.0-linux-x86_64''"
    "\<not> is_file blocked_world ''tool_0.9.0-linux-x86_64''"
    "superseded ?key ''tool_0.8.0-linux-x86_64''"
    by code_simp+
  have bk: "bins_lookup blocked_world ''tool_1.0.0-linux-x86_64'' = Some (File 10 493)"
    by code_simp
  have e0: "events blocked_world = []"
    by (simp add: blocked_world_def)
  have stop: "(\<forall>k. bins_lookup (delete_older_binary_versions ?new blocked_world) k
                 = (if k \<in> set [''tool_0.8.0-linux-x86_64''] \<and> superseded ?key k
                    then None else bins_lookup blocked_world k))
         \<and> (\<exists>evs. events (delete_older_binary_versions ?new blocked_world)
                     = events blocked_world @ evs @ [''bridges.tools.deleting_old_version'',
                                         ''bridges.tools.cleanup_warning''])"
    using delete_older_binary_versions_prunes
      [where new_executable = ?new and new = ?key and w = blocked_world and es = ?bs
        and pre = "[''tool_0.8.0-linux-x86_64'']" and d = "''tool_0.9.0-linux-x86_64''"
        and post = "[''tool_1.0.0-linux-x86_64'', ''tool_1.1.0-linux-x86_64'']"]
      m1 bb bl bd bf bs(1) bs(2)
    by blast
  have r6: "bins_lookup (delete_older_binary_versions ?new blocked_world)
        ''tool_0.8.0-linux-x86_64'' = None"
    using stop bs(3) by simp
  have r7: "bins_lookup (delete_older_binary_versions ?new blocked_world)
        ''tool_1.0.0-linux-x86_64'' = Some (File 10 493)"
    using stop bk by simp
  have r8: "\<exists>evs. events (delete_older_binary_versions ?new blocked_world)
          = evs @ [''bridges.tools.deleting_old_version'', ''bridges.tools.cleanup_warning'']"
    using stop e0 by simp
  show ?thesis
    using r0 r1 r2 r3 r4 r5 r6 r7 r8 by blast
qed

text \<open>
  The claim as it was stated fails when a removal raises: the directory listed first
  matches the pattern and cannot be removed, the loop ends with a warning, and the
  superseded file listed after it stays.
\<close>

theorem delete_older_binary_versions_counterexample:
  "version_match ''tool_1.1.0-linux-x86_64'' = Some (''tool'', ''1.1.0'', ''linux-x86_64'')
   \<and> version_match ''tool_1.0.0-linux-x86_64'' = Some (''tool'', ''1.0.0'', ''linux-x86_64'')
   \<and> bins_lookup cluttered_world ''tool_1.0.0-linux-x86_64'' = Some (File 10 493)
   \<and> bins_lookup (delete_older_binary_versions ''tool_1.1.0-linux-x86_64'' cluttered_world)
        ''tool_1.0.0-linux-x86_64'' = Some (File 10 493)
   \<and> events (delete_older_binary_versions ''tool_1.1.0-linux-x86_64'' cluttered_world)
       = [''bridges.tools.deleting_old_version'', ''bridges.tools.cleanup_warning'']"
  by code_simp

text \<open>
  Claim C7. \<open>get_binary_url\<close> gives no URL, and raises nothing, when the tool's
  configuration has no \<open>binaries\<close> entry for the host's platform tag. Then
  \<open>get_binary_path\<close>, asked to download, raises the no-URL exception for the binary
  name after reporting the check and the missing URL: no directory is created, the
  bins directory is as before, and nothing is transferred.
\<close>

theorem get_binary_path_no_url:
  "((binaries config = None
      \<or> (\<exists>bs. binaries config = Some bs \<and> map_of bs (get_platform_name h) = None))
     \<longrightarrow> get_binary_url h config = None)
   \<and> (load e (tool_config_name e) = Inr cfg \<and> get_binary_url (platform e) cfg = None
     \<longrightarrow> fst (get_binary_path e n False w) = Inl (NoBinaryUrl n)
        \<and> bins (snd (get_binary_path e n False w)) = bins w
        \<and> transfers (snd (get_binary_path e n False w)) = transfers w
        \<and> events (snd (get_binary_path e n False w))
            = events w @ [''bridges.tools.checking_binary'', ''bridges.tools.no_binary_url''])"
proof -
  have c1: "(binaries config = None
      \<or> (\<exists>bs. binaries config = Some bs \<and> map_of bs (get_platform_name h) = None))
     \<longrightarrow> get_binary_url h config = None"
    by (auto simp add: get_binary_url_def)
  have c2: "load e (tool_config_name e) = Inr cfg \<and> get_binary_url (platform e) cfg = None
     \<longrightarrow> fst (get_binary_path e n False w) = Inl (NoBinaryUrl n)
        \<and> bins (snd (get_binary_path e n False w)) = bins w
        \<and> transfers (snd (get_binary_path e n False w)) = transfers w
        \<and> events (snd (get_binary_path e n False w))
            = events w @ [''bridges.tools.checking_binary'', ''bridges.tools.no_binary_url'']"
    by (simp add: get_binary_path_def)
  show ?thesis
    by (intro conjI) (fact c1 c2)+
qed

theorem get_binary_path_no_url_witness:
  "get_binary_url mac_host example_config = None
   \<and> fst (get_binary_path mac_env ''ffmpeg'' False empty_world) = Inl (NoBinaryUrl ''ffmpeg'')
   \<and> bins (snd (get_binary_path mac_env ''ffmpeg'' False empty_world)) = None
   \<and> transfers (snd (get_binary_path mac_env ''ffmpeg'' False empty_world)) = []
   \<and> events (snd (get_binary_path mac_env ''ffmpeg'' False empty_world))
       = [''bridges.tools.checking_binary'', ''bridges.tools.no_binary_url'']"
proof -
  have h1: "\<exists>bs. binaries example_config = Some bs
      \<and> map_of bs (get_platform_name mac_host) = None"
    by (rule exI [of _ "the (binaries example_config)"]) code_simp
  have h2: "load mac_env (tool_config_name mac_env) = Inr example_config"
    by code_simp
  have p: "platform mac_env = mac_host"
    by (simp add: mac_env_def)
  have a: "get_binary_url mac_host example_config = None"
    using get_binary_path_no_url [where config = example_config and h = mac_host] h1
    by blast
  have w0: "bins empty_world = None" "transfers empty_world = []" "events empty_world = []"
    by (simp_all add: empty_world_def)
  have b: "fst (get_binary_path mac_env ''ffmpeg'' False empty_world) = Inl (NoBinaryUrl ''ffmpeg'')
      \<and> bins (snd (get_binary_path mac_env ''ffmpeg'' False empty_world)) = bins empty_world
      \<and> transfers (snd (get_binary_path mac_env ''ffmpeg'' False empty_world))
          = transfers empty_world
      \<and> events (snd (get_binary_path mac_env ''ffmpeg'' False empty_world))
          = events empty_world @ [''bridges.tools.checking_binary'', ''bridges.tools.no_binary_url'']"
    using get_binary_path_no_url
      [where e = mac_env and cfg = example_config and n = "''ffmpeg''" and w = empty_world]
      h2 a p
    by simp
  show ?thesis
    using a b w0 by simp
qed

text \<open>
  Claim C1, as amended. When the file a tool resolves to is already in the bins
  directory, \<open>get_binary_path\<close> returns its path and transfers nothing; on a host that
  is not Windows the file then has the permission bits 0o755 (493), and every other
  entry is as before. When a call returns a path, a second call from the state it
  left transfers nothing, so the two calls transfer at most once.
\<close>

theorem get_binary_path_idempotent:
  "(resolved_binary e = Some (url, exe) \<and> bins_lookup w exe \<noteq> None
      \<longrightarrow> fst (get_binary_path e n False w) = Inr (bins_path e @ [exe])
         \<and> transfers (snd (get_binary_path e n False w)) = transfers w
         \<and> (\<forall>g. g \<noteq> exe
                \<longrightarrow> bins_lookup (snd (get_binary_path e n False w)) g = bins_lookup w g)
         \<and> (\<not> is_windows (platform e) \<and> bins_lookup w exe = Some (File sz m)
                \<longrightarrow> bins_lookup (snd (get_binary_path e n False w)) exe = Some (File sz 493)))
   \<and> (fst (get_binary_path e n skip w) = Inr p
      \<longrightarrow> transfers (snd (get_binary_path e n skip (snd (get_binary_path e n skip w))))
            = transfers (snd (get_binary_path e n skip w))
         \<and> length (transfers (snd (get_binary_path e n skip (snd (get_binary_path e n skip w)))))
            \<le> Suc (length (transfers w)))"
proof -
  have c1: "resolved_binary e = Some (url, exe) \<and> bins_lookup w exe \<noteq> None
      \<longrightarrow> fst (get_binary_path e n False w) = Inr (bins_path e @ [exe])
         \<and> transfers (snd (get_binary_path e n False w)) = transfers w
         \<and> (\<forall>g. g \<noteq> exe
                \<longrightarrow> bins_lookup (snd (get_binary_path e n False w)) g = bins_lookup w g)
         \<and> (\<not> is_windows (platform e) \<and> bins_lookup w exe = Some (File sz m)
                \<longrightarrow> bins_lookup (snd (get_binary_path e n False w)) exe = Some (File sz 493))"
  proof (intro impI)
    assume h: "resolved_binary e = Some (url, exe) \<and> bins_lookup w exe \<noteq> None"
    obtain w' where g: "get_binary_path e n False w = (Inr (bins_path e @ [exe]), w')"
      and t: "transfers w' = transfers w"
      and l: "\<forall>g. bins_lookup w' g
                  = (if g = exe \<and> \<not> is_windows (platform e)
                     then (case bins_lookup w exe of
                             Some (File sz old) \<Rightarrow> Some (File sz 493)
                           | x \<Rightarrow> x)
                     else bins_lookup w g)"
      using get_binary_path_present [of e url exe w n] h by blast
    show "fst (get_binary_path e n False w) = Inr (bins_path e @ [exe])
         \<and> transfers (snd (get_binary_path e n False w)) = transfers w
         \<and> (\<forall>g. g \<noteq> exe
                \<longrightarrow> bins_lookup (snd (get_binary_path e n False w)) g = bins_lookup w g)
         \<and> (\<not> is_windows (platform e) \<and> bins_lookup w exe = Some (File sz m)
                \<longrightarrow> bins_lookup (snd (get_binary_path e n False w)) exe = Some (File sz 493))"
      using g t l by simp
  qed
  have c2: "fst (get_binary_path e n skip w) = Inr p
      \<longrightarrow> transfers (snd (get_binary_path e n skip (snd (get_binary_path e n skip w))))
            = transfers (snd (get_binary_path e n skip w))
         \<and> length (transfers (snd (get_binary_path e n skip (snd (get_binary_path e n skip w)))))
            \<le> Suc (length (transfers w))"
  proof (intro impI)
    assume s: "fst (get_binary_path e n skip w) = Inr p"
    define w' where "w' = snd (get_binary_path e n skip w)"
    have again: "transfers (snd (get_binary_path e n skip w')) = transfers w'"
    proof (cases skip)
      case True
      then show ?thesis
        by (simp add: get_binary_path_def)
    next
      case False
      then have "get_binary_path e n False w = (Inr p, w')"
        using s w'_def by (metis prod.collapse)
      then obtain url exe where "resolved_binary e = Some (url, exe)"
        and "bins_lookup w' exe \<noteq> None"
        using get_binary_path_success_present by blast
      then show ?thesis
        using get_binary_path_present [of e url exe w' n] False by fastforce
    qed
    have "length (transfers w') \<le> Suc (length (transfers w))"
      unfolding w'_def by (rule get_binary_path_transfers)
    then show "transfers (snd (get_binary_path e n skip (snd (get_binary_path e n skip w))))
            = transfers (snd (get_binary_path e n skip w))
         \<and> length (transfers (snd (get_binary_path e n skip (snd (get_binary_path e n skip w)))))
            \<le> Suc (length (transfers w))"
      using again unfolding w'_def by simp
  qed
  show ?thesis
    by (intro conjI) (fact c1 c2)+
qed

theorem get_binary_path_idempotent_witness:
  "fst (get_binary_path example_env ''ffmpeg'' False old_versions_world)
     = Inr [''/leon/bridges/toolkits'', ''video'', ''bins'', ''tool_1.1.0-linux-x86_64'']
   \<and> transfers (snd (get_binary_path example_env ''ffmpeg'' False old_versions_world)) = []
   \<and> bins_lookup (snd (get_binary_path example_env ''ffmpeg'' False old_versions_world))
        ''tool_1.1.0-linux-x86_64'' = Some (File 12 493)
   \<and> bins_lookup (snd (get_binary_path example_env ''ffmpeg'' False old_versions_world))
        ''notes.txt'' = Some (File 3 420)
   \<and> transfers (snd (get_binary_path example_env ''ffmpeg'' False
        (snd (get_binary_path example_env ''ffmpeg'' False empty_world))))
       = transfers (snd (get_binary_path example_env ''ffmpeg'' False empty_world))
   \<and> length (transfers (snd (get_binary_path example_env ''ffmpeg'' False
        (snd (get_binary_path example_env ''ffmpeg'' False empty_world))))) \<le> 1"
proof -
  let ?exe = "''tool_1.1.0-linux-x86_64''"
  let ?url = "''https://example.com/releases/tool_1.1.0-linux-x86_64''"
  have r: "resolved_binary example_env = Some (?url, ?exe)"
    by code_simp
  have ex: "bins_lookup old_versions_world ?exe = Some (File 12 420)"
    "bins_lookup old_versions_world ''notes.txt'' = Some (File 3 420)"
    by code_simp+
  have lin: "\<not> is_windows (platform example_env)"
    by code_simp
  have bp: "bins_path example_env = [''/leon/bridges/toolkits'', ''video'', ''bins'']"
    by code_simp
  have ok: "fst (get_binary_path example_env ''ffmpeg'' False empty_world)
      = Inr [''/leon/bridges/toolkits'', ''video'', ''bins'', ''tool_1.1.0-linux-x86_64'']"
    by code_simp
  have t0: "transfers old_versions_world = []" "transfers empty_world = []"
    by (simp_all add: old_versions_world_def empty_world_def)
  have a: "fst (get_binary_path example_env ''ffmpeg'' False old_versions_world)
        = Inr (bins_path example_env @ [?exe])
      \<and> transfers (snd (get_binary_path example_env ''ffmpeg'' False old_versions_world))
        = transfers old_versions_world
      \<and> bins_lookup (snd (get_binary_path example_env ''ffmpeg'' False old_versions_world))
          ''notes.txt'' = bins_lookup old_versions_world ''notes.txt''
      \<and> bins_lookup (snd (get_binary_path example_env ''ffmpeg'' False old_versions_world))
          ?exe = Some (File 12 493)"
    using get_binary_path_idempotent
      [where e = example_env and url = ?url and exe = ?exe and w = old_versions_world
        and n = "''ffmpeg''" and sz = 12 and m = 420] r ex(1) lin
    by simp
  have b: "transfers (snd (get_binary_path example_env ''ffmpeg'' False
        (snd (get_binary_path example_env ''ffmpeg'' False empty_world))))
       = transfers (snd (get_binary_path example_env ''ffmpeg'' False empty_world))
      \<and> length (transfers (snd (get_binary_path example_env ''ffmpeg'' False
        (snd (get_binary_path example_env ''ffmpeg'' False empty_world)))))
        \<le> Suc (length (transfers empty_world))"
    using get_binary_path_idempotent
      [where e = example_env and n = "''ffmpeg''" and skip = False and w = empty_world
        and p = "[''/leon/bridges/toolkits'', ''video'', ''bins'', ''tool_1.1.0-linux-x86_64'']"]
      ok
    by blast
  have a': "fst (get_binary_path example_env ''ffmpeg'' False old_versions_world)
        = Inr [''/leon/bridges/toolkits'', ''video'', ''bins'', ''tool_1.1.0-linux-x86_64'']
      \<and> transfers (snd (get_binary_path example_env ''ffmpeg'' False old_versions_world)) = []
      \<and> bins_lookup (snd (get_binary_path example_env ''ffmpeg'' False old_versions_world))
          ?exe = Some (File 12 493)
      \<and> bins_lookup (snd (get_binary_path example_env ''ffmpeg'' False old_versions_world))
          ''notes.txt'' = Some (File 3 420)"
    using a bp ex(2) t0(1) by simp
  have b1: "transfers (snd (get_binary_path example_env ''ffmpeg'' False
        (snd (get_binary_path example_env ''ffmpeg'' False empty_world))))
       = transfers (snd (get_binary_path example_env ''ffmpeg'' False empty_world))"
    using b by blast
  have b2: "length (transfers (snd (get_binary_path example_env ''ffmpeg'' False
        (snd (get_binary_path example_env ''ffmpeg'' False empty_world)))))
        \<le> Suc (length (transfers empty_world))"
    using b by blast
  have b3: "length (transfers (snd (get_binary_path example_env ''ffmpeg'' False
        (snd (get_binary_path example_env ''ffmpeg'' False empty_world))))) \<le> 1"
    using b2 t0(2) by simp
  show ?thesis
    using a' b1 b3 by blast
qed

text \<open>
  The claim as it was stated fails when the first call fails: with a downloader that
  leaves no file, each of two calls in a row starts a transfer.
\<close>

theorem get_binary_path_two_transfers_counterexample:
  "fst (get_binary_path offline_env ''ffmpeg'' False empty_world)
     = Inl (FailedToDownloadBinaryNamed ''ffmpeg'' (FailedToDownloadBinary EmptyDownload))
   \<and> bins (snd (get_binary_path offline_env ''ffmpeg'' False empty_world)) = Some []
   \<and> transfers (snd (get_binary_path offline_env ''ffmpeg'' False
        (snd (get_binary_path offline_env ''ffmpeg'' False empty_world))))
       = [''https://example.com/releases/tool_1.1.0-linux-x86_64'',
          ''https://example.com/releases/tool_1.1.0-linux-x86_64'']"
  by code_simp

section \<open>Properties of resource bundles\<close>

lemma resource_lookup_report [simp]:
  "resource_lookup (report k w) r f = resource_lookup w r f"
  by (simp add: resource_lookup_def)

lemma resource_stat_report [simp]:
  "resource_stat e (report k w) r f = resource_stat e w r f"
  by (simp add: resource_stat_def)

lemma resource_missing_report [simp]:
  "resource_missing_or_empty e (report k w) r f = resource_missing_or_empty e w r f"
  by (simp add: resource_missing_or_empty_def)

lemma all_present_report [simp]:
  "all_present e (report k w) r urls = all_present e w r urls"
  by (induction urls) (simp_all add: all_present_def split: option.splits)

lemma makedirs_resource_transfers [simp]:
  "transfers (makedirs_resource r w) = transfers w"
  by (simp add: makedirs_resource_def Let_def makedirs_bins_def bins_lookup_def
        split: option.splits)

lemma makedirs_resource_events [simp]:
  "events (makedirs_resource r w) = events w"
  by (simp add: makedirs_resource_def Let_def makedirs_bins_def bins_lookup_def
        split: option.splits)

lemma makedirs_resource_lookup:
  "bins_lookup w r = None \<Longrightarrow> resource_lookup (makedirs_resource r w) r f = resource_lookup w r f"
  by (cases "bins w")
     (simp_all add: makedirs_resource_def Let_def makedirs_bins_def bins_lookup_def
        resource_lookup_def map_add_def)

lemma resource_dir_ready_simps:
  "transfers (resource_dir_ready r w) = transfers w"
  "resource_lookup (resource_dir_ready r w) r f = resource_lookup w r f"
  by (simp_all add: resource_dir_ready_def Let_def makedirs_resource_lookup)

lemma resource_missing_ordinary:
  "f \<notin> set [[], ''.'', ''..''] \<Longrightarrow>
   resource_missing_or_empty e w r f
     = (case resource_lookup w r f of None \<Rightarrow> True | Some n \<Rightarrow> n = 0)"
  by (simp add: resource_missing_or_empty_def resource_stat_def)

lemma resource_missing_directory:
  "bins_lookup w r = Some (Dir cs) \<Longrightarrow> f \<in> set [[], ''.''] \<Longrightarrow>
   resource_missing_or_empty e w r f = (dir_size e (bins_path e @ [r]) = 0)"
  by (auto simp add: resource_missing_or_empty_def resource_stat_def)

lemma all_present_iff:
  "all_present e w r urls
     = (\<forall>u \<in> set urls. \<exists>f. resource_file_name e u = Some f
                             \<and> \<not> resource_missing_or_empty e w r f)"
  by (induction urls) (auto simp add: all_present_def split: option.splits)

lemma all_present_Cons:
  "all_present e w r (u # us)
     = ((case resource_file_name e u of
           None \<Rightarrow> False
         | Some f \<Rightarrow> \<not> resource_missing_or_empty e w r f) \<and> all_present e w r us)"
  by (simp add: all_present_def)

lemma is_resource_complete_True:
  "is_resource_complete e w r urls = Inr True \<longleftrightarrow> all_present e w r urls"
  by (induction urls) (auto simp add: all_present_def split: option.splits)

lemma is_resource_complete_missing:
  "all_present e w r pre \<Longrightarrow> resource_file_name e u = Some f
   \<Longrightarrow> resource_missing_or_empty e w r f
   \<Longrightarrow> is_resource_complete e w r (pre @ u # post) = Inr False"
  by (induction pre) (auto simp add: all_present_Cons split: option.splits)

lemma is_resource_complete_unparsed:
  "all_present e w r pre \<Longrightarrow> resource_file_name e u = None
   \<Longrightarrow> is_resource_complete e w r (pre @ u # post) = Inl UrlValueError"
  by (induction pre) (auto simp add: all_present_Cons split: option.splits)

lemma is_resource_complete_cases:
  "all_present e w r urls
   \<or> (\<exists>pre u post f. urls = pre @ u # post \<and> all_present e w r pre
         \<and> resource_file_name e u = Some f \<and> resource_missing_or_empty e w r f)
   \<or> (\<exists>pre u post. urls = pre @ u # post \<and> all_present e w r pre
         \<and> resource_file_name e u = None)"
proof (induction urls)
  case Nil
  then show ?case by (simp add: all_present_def)
next
  case (Cons a urls)
  show ?case
  proof (cases "resource_file_name e a")
    case None
    have "a # urls = [] @ a # urls \<and> all_present e w r [] \<and> resource_file_name e a = None"
      using None by (simp add: all_present_def)
    then show ?thesis by blast
  next
    case (Some f)
    show ?thesis
    proof (cases "resource_missing_or_empty e w r f")
      case True
      have "a # urls = [] @ a # urls \<and> all_present e w r []
          \<and> resource_file_name e a = Some f \<and> resource_missing_or_empty e w r f"
        using Some True by (simp add: all_present_def)
      then show ?thesis by blast
    next
      case False
      have head: "all_present e w r (a # pre) = all_present e w r pre" for pre
        using Some False by (simp add: all_present_Cons)
      consider (all) "all_present e w r urls"
        | (missing) pre u post g where "urls = pre @ u # post" "all_present e w r pre"
            "resource_file_name e u = Some g" "resource_missing_or_empty e w r g"
        | (unparsed) pre u post where "urls = pre @ u # post" "all_present e w r pre"
            "resource_file_name e u = None"
        using Cons.IH by blast
      then show ?thesis
      proof cases
        case all
        then show ?thesis
          using head [of urls] by blast
      next
        case missing
        have "a # urls = (a # pre) @ u # post \<and> all_present e w r (a # pre)
            \<and> resource_file_name e u = Some g \<and> resource_missing_or_empty e w r g"
          using missing head [of pre] by simp
        then show ?thesis by blast
      next
        case unparsed
        have "a # urls = (a # pre) @ u # post \<and> all_present e w r (a # pre)
            \<and> resource_file_name e u = None"
          using unparsed head [of pre] by simp
        then show ?thesis by blast
      qed
    qed
  qed
qed

lemma write_resource_file_transfers [simp]:
  "transfers (write_resource_file r f n w) = transfers w"
  by (simp add: write_resource_file_def split: option.splits entry.splits)

lemma write_resource_file_events [simp]:
  "events (write_resource_file r f n w) = events w"
  by (simp add: write_resource_file_def split: option.splits entry.splits)

lemma dl_start_resource_transfers [simp]:
  "transfers (dl_start_resource e url r f w) = transfers w @ [url]"
  by (simp add: dl_start_resource_def Let_def split: option.splits)

lemma dl_start_resource_events [simp]:
  "events (dl_start_resource e url r f w) = events w"
  by (simp add: dl_start_resource_def Let_def split: option.splits)

lemma download_resource_file_transfers:
  "transfers (snd (download_resource_file e r url f w)) = transfers w @ [url]"
  by (simp add: download_resource_file_def Let_def)

lemma download_resource_file_events:
  "events (snd (download_resource_file e r url f w)) = events w"
  by (simp add: download_resource_file_def Let_def)

lemma download_resource_file_empty:
  assumes "resource_missing_or_empty e (snd (download_resource_file e r url f w)) r f"
  shows "\<exists>err. fst (download_resource_file e r url f w) = Inl err"
proof -
  define w2 where "w2 = dl_start_resource e url r f
      (if bins_lookup w r = None then makedirs_resource r w else w)"
  have eq: "download_resource_file e r url f w =
      (if cli_progress e \<and> dl_failed (fetch e url) then (Inl DownloadFailed, w2)
       else if resource_missing_or_empty e w2 r f then (Inl EmptyDownload, w2)
       else (Inr (), w2))"
    unfolding download_resource_file_def w2_def by (simp only: Let_def)
  have "snd (download_resource_file e r url f w) = w2"
    unfolding eq by simp
  then have "resource_missing_or_empty e w2 r f"
    using assms by simp
  then show ?thesis
    unfolding eq by simp
qed

lemma download_resource_files_extends:
  "\<exists>ts evs. transfers (snd (download_resource_files e r urls w)) = transfers w @ ts
      \<and> events (snd (download_resource_files e r urls w)) = events w @ evs"
proof (induction urls arbitrary: w)
  case Nil
  then show ?case by simp
next
  case (Cons u us)
  show ?case
  proof (cases "resource_file_name e (set_hugging_face_url e u)")
    case None
    then show ?thesis by (simp add: Let_def)
  next
    case (Some f)
    let ?w1 = "report ''bridges.tools.downloading_resource_file'' w"
    obtain r1 w2 where d: "download_resource_file e r (set_hugging_face_url e u) f ?w1 = (r1, w2)"
      by (cases "download_resource_file e r (set_hugging_face_url e u) f ?w1") auto
    have t2: "transfers w2 = transfers w @ [set_hugging_face_url e u]"
      using download_resource_file_transfers [of e r "set_hugging_face_url e u" f ?w1] d by simp
    have e2: "events w2 = events w @ [''bridges.tools.downloading_resource_file'']"
      using download_resource_file_events [of e r "set_hugging_face_url e u" f ?w1] d by simp
    show ?thesis
    proof (cases r1)
      case (Inl err)
      then show ?thesis
        using Some d t2 e2 by (simp add: Let_def)
    next
      case (Inr x)
      let ?w3 = "report ''bridges.tools.resource_file_downloaded'' w2"
      obtain ts evs where "transfers (snd (download_resource_files e r us ?w3)) = transfers ?w3 @ ts"
        and "events (snd (download_resource_files e r us ?w3)) = events ?w3 @ evs"
        using Cons.IH [of ?w3] by blast
      then show ?thesis
        using Some d t2 e2 Inr by (simp add: Let_def)
    qed
  qed
qed

lemma download_resource_files_starts:
  assumes "resource_file_name e (set_hugging_face_url e u) = Some f"
  shows "\<exists>ts. transfers (snd (download_resource_files e r (u # us) w))
           = transfers w @ set_hugging_face_url e u # ts"
proof -
  let ?w1 = "report ''bridges.tools.downloading_resource_file'' w"
  obtain r1 w2 where d: "download_resource_file e r (set_hugging_face_url e u) f ?w1 = (r1, w2)"
    by (cases "download_resource_file e r (set_hugging_face_url e u) f ?w1") auto
  have t2: "transfers w2 = transfers w @ [set_hugging_face_url e u]"
    using download_resource_file_transfers [of e r "set_hugging_face_url e u" f ?w1] d by simp
  show ?thesis
  proof (cases r1)
    case (Inl err)
    then show ?thesis
      using assms d t2 by (simp add: Let_def)
  next
    case (Inr x)
    let ?w3 = "report ''bridges.tools.resource_file_downloaded'' w2"
    obtain ts where "transfers (snd (download_resource_files e r us ?w3)) = transfers ?w3 @ ts"
      using download_resource_files_extends [of e r us ?w3] by blast
    then show ?thesis
      using assms d t2 Inr by (simp add: Let_def)
  qed
qed

lemma download_resource_files_success_transfers:
  assumes "download_resource_files e r (u # us) w = (Inr x, w')"
  shows "length (transfers w) < length (transfers w')"
proof (cases "resource_file_name e (set_hugging_face_url e u)")
  case None
  then show ?thesis
    using assms by (simp add: Let_def)
next
  case (Some f)
  obtain ts where "transfers (snd (download_resource_files e r (u # us) w))
           = transfers w @ set_hugging_face_url e u # ts"
    using download_resource_files_starts [OF Some] by blast
  then show ?thesis
    unfolding assms by simp
qed

lemma download_resource_files_append:
  "download_resource_files e r (pre @ rest) w =
     (case download_resource_files e r pre w of
        (Inl err, w') \<Rightarrow> (Inl err, w')
      | (Inr x, w') \<Rightarrow> download_resource_files e r rest w')"
proof (induction pre arbitrary: w)
  case Nil
  then show ?case by simp
next
  case (Cons u us)
  show ?case
  proof (cases "resource_file_name e (set_hugging_face_url e u)")
    case None
    then show ?thesis by (simp add: Let_def)
  next
    case (Some f)
    let ?w1 = "report ''bridges.tools.downloading_resource_file'' w"
    obtain r1 w2 where d: "download_resource_file e r (set_hugging_face_url e u) f ?w1 = (r1, w2)"
      by (cases "download_resource_file e r (set_hugging_face_url e u) f ?w1") auto
    show ?thesis
    proof (cases r1)
      case (Inl err)
      then show ?thesis
        using Some d by (simp add: Let_def)
    next
      case (Inr x)
      then show ?thesis
        using Some d Cons.IH by (simp add: Let_def)
    qed
  qed
qed

lemma get_resource_path_declared:
  assumes "load e (tool_config_name e) = Inr config" and "resources config = Some rs"
    and "map_of rs rname = Some urls" and "urls \<noteq> []"
  shows "get_resource_path e rname w =
     (case is_resource_complete e (resource_dir_ready rname w) rname urls of
        Inl err \<Rightarrow> (Inl err, resource_dir_ready rname w)
      | Inr complete \<Rightarrow>
          if complete then
            (Inr (bins_path e @ [rname]),
             report ''bridges.tools.resource_already_exists'' (resource_dir_ready rname w))
          else
            (case download_resource_files e rname urls
                    (report ''bridges.tools.downloading_resource''
                       (resource_dir_ready rname w)) of
               (Inl err, w3) \<Rightarrow> (Inl err, w3)
             | (Inr u, w3) \<Rightarrow>
                 (Inr (bins_path e @ [rname]),
                  report ''bridges.tools.resource_downloaded'' w3)))"
proof -
  have ne: "(urls = []) = False"
    using assms(4) by simp
  show ?thesis
    unfolding get_resource_path_def resource_dir_ready_def
    by (simp only: assms(1,2,3) ne sum.case option.case if_False Let_def)
qed

text \<open>
  Claim C2, as amended. The file name of a declared URL is the base name of the URL's
  path cut at the first question mark, and the completeness check tests this name
  joined to the resource directory: an ordinary name passes when the directory lists
  a file of that name with a size that is not zero, an empty name or a single dot
  when the size reported for the resource directory itself is not zero. For a resource
  that the configuration declares with at least one URL, \<open>get_resource_path\<close>
  returns the resource directory without any transfer exactly when every declared URL
  passes the test; then it reports that the resource exists. When the first URL that
  does not pass has a file that is missing or empty, the download phase for the bundle
  is entered: it is reported, the result is the result of the download loop, and the
  first declared URL is transferred first (when its rewritten form parses). When the
  first URL that does not pass is one that does not parse, the parser's error is
  raised from the check and nothing is transferred. One of the three cases holds.
\<close>

theorem get_resource_path_completeness:
  "(resource_file_name e u = Some f \<longrightarrow>
      CHR ''?'' \<notin> set f
      \<and> (\<exists>p. urlparse e u = Some p
             \<and> f = takeWhile (\<lambda>c. c \<noteq> CHR ''?'') (basename (platform e) (url_path p))))
   \<and> all_present e w' rname urls =
       (\<forall>u \<in> set urls. \<exists>f. resource_file_name e u = Some f
                            \<and> \<not> resource_missing_or_empty e w' rname f)
   \<and> (f \<notin> set [[], ''.'', ''..''] \<longrightarrow>
        resource_missing_or_empty e (resource_dir_ready rname w) rname f
          = (case resource_lookup w rname f of None \<Rightarrow> True | Some n \<Rightarrow> n = 0))
   \<and> (bins_lookup (resource_dir_ready rname w) rname = Some (Dir cs) \<and> f \<in> set [[], ''.''] \<longrightarrow>
        resource_missing_or_empty e (resource_dir_ready rname w) rname f
          = (dir_size e (bins_path e @ [rname]) = 0))
   \<and> (load e (tool_config_name e) = Inr config \<and> resources config = Some rs
        \<and> map_of rs rname = Some urls \<and> urls \<noteq> [] \<longrightarrow>
        ((fst (get_resource_path e rname w) = Inr (bins_path e @ [rname])
          \<and> transfers (snd (get_resource_path e rname w)) = transfers w)
         = all_present e (resource_dir_ready rname w) rname urls)
        \<and> (all_present e (resource_dir_ready rname w) rname urls \<longrightarrow>
             get_resource_path e rname w =
               (Inr (bins_path e @ [rname]),
                report ''bridges.tools.resource_already_exists'' (resource_dir_ready rname w)))
        \<and> (urls = pre @ u1 # post \<and> all_present e (resource_dir_ready rname w) rname pre
             \<and> resource_file_name e u1 = Some f1
             \<and> resource_missing_or_empty e (resource_dir_ready rname w) rname f1 \<longrightarrow>
             get_resource_path e rname w =
               (case download_resource_files e rname urls
                       (report ''bridges.tools.downloading_resource''
                          (resource_dir_ready rname w)) of
                  (Inl err, w3) \<Rightarrow> (Inl err, w3)
                | (Inr x, w3) \<Rightarrow>
                    (Inr (bins_path e @ [rname]),
                     report ''bridges.tools.resource_downloaded'' w3))
             \<and> ''bridges.tools.downloading_resource''
                 \<in> set (events (snd (get_resource_path e rname w)))
             \<and> (resource_file_name e (set_hugging_face_url e (hd urls)) \<noteq> None \<longrightarrow>
                  (\<exists>ts. transfers (snd (get_resource_path e rname w))
                          = transfers w @ set_hugging_face_url e (hd urls) # ts)))
        \<and> (urls = pre @ u1 # post \<and> all_present e (resource_dir_ready rname w) rname pre
             \<and> resource_file_name e u1 = None \<longrightarrow>
             get_resource_path e rname w = (Inl UrlValueError, resource_dir_ready rname w)
             \<and> transfers (snd (get_resource_path e rname w)) = transfers w)
        \<and> (all_present e (resource_dir_ready rname w) rname urls
            \<or> (\<exists>pre u1 post f1. urls = pre @ u1 # post
                  \<and> all_present e (resource_dir_ready rname w) rname pre
                  \<and> resource_file_name e u1 = Some f1
                  \<and> resource_missing_or_empty e (resource_dir_ready rname w) rname f1)
            \<or> (\<exists>pre u1 post. urls = pre @ u1 # post
                  \<and> all_present e (resource_dir_ready rname w) rname pre
                  \<and> resource_file_name e u1 = None)))"
proof -
  let ?R = "resource_dir_ready rname w"
  let ?P = "bins_path e @ [rname]"
  let ?G = "get_resource_path e rname w"
  let ?D = "download_resource_files e rname urls
              (report ''bridges.tools.downloading_resource'' ?R)"
  have c1: "resource_file_name e u = Some f \<longrightarrow>
      CHR ''?'' \<notin> set f
      \<and> (\<exists>p. urlparse e u = Some p
             \<and> f = takeWhile (\<lambda>c. c \<noteq> CHR ''?'') (basename (platform e) (url_path p)))"
    by (auto simp add: resource_file_name_def dest: set_takeWhileD)
  have c2: "all_present e w' rname urls =
       (\<forall>u \<in> set urls. \<exists>f. resource_file_name e u = Some f
                            \<and> \<not> resource_missing_or_empty e w' rname f)"
    by (rule all_present_iff)
  have c3: "f \<notin> set [[], ''.'', ''..''] \<longrightarrow>
        resource_missing_or_empty e ?R rname f
          = (case resource_lookup w rname f of None \<Rightarrow> True | Some n \<Rightarrow> n = 0)"
    using resource_missing_ordinary [of f e ?R rname]
    by (simp only: resource_dir_ready_simps) blast
  have c4: "bins_lookup ?R rname = Some (Dir cs) \<and> f \<in> set [[], ''.''] \<longrightarrow>
        resource_missing_or_empty e ?R rname f = (dir_size e ?P = 0)"
    using resource_missing_directory [of ?R rname cs f e] by blast
  have c5: "load e (tool_config_name e) = Inr config \<and> resources config = Some rs
        \<and> map_of rs rname = Some urls \<and> urls \<noteq> [] \<longrightarrow>
        ((fst ?G = Inr ?P \<and> transfers (snd ?G) = transfers w) = all_present e ?R rname urls)
        \<and> (all_present e ?R rname urls \<longrightarrow>
             ?G = (Inr ?P, report ''bridges.tools.resource_already_exists'' ?R))
        \<and> (urls = pre @ u1 # post \<and> all_present e ?R rname pre
             \<and> resource_file_name e u1 = Some f1
             \<and> resource_missing_or_empty e ?R rname f1 \<longrightarrow>
             ?G = (case ?D of
                  (Inl err, w3) \<Rightarrow> (Inl err, w3)
                | (Inr x, w3) \<Rightarrow>
                    (Inr ?P, report ''bridges.tools.resource_downloaded'' w3))
             \<and> ''bridges.tools.downloading_resource'' \<in> set (events (snd ?G))
             \<and> (resource_file_name e (set_hugging_face_url e (hd urls)) \<noteq> None \<longrightarrow>
                  (\<exists>ts. transfers (snd ?G)
                          = transfers w @ set_hugging_face_url e (hd urls) # ts)))
        \<and> (urls = pre @ u1 # post \<and> all_present e ?R rname pre
             \<and> resource_file_name e u1 = None \<longrightarrow>
             ?G = (Inl UrlValueError, ?R) \<and> transfers (snd ?G) = transfers w)
        \<and> (all_present e ?R rname urls
            \<or> (\<exists>pre u1 post f1. urls = pre @ u1 # post \<and> all_present e ?R rname pre
                  \<and> resource_file_name e u1 = Some f1
                  \<and> resource_missing_or_empty e ?R rname f1)
            \<or> (\<exists>pre u1 post. urls = pre @ u1 # post \<and> all_present e ?R rname pre
                  \<and> resource_file_name e u1 = None))"
  proof (intro impI)
    assume h: "load e (tool_config_name e) = Inr config \<and> resources config = Some rs
        \<and> map_of rs rname = Some urls \<and> urls \<noteq> []"
    have eq: "?G =
       (case is_resource_complete e ?R rname urls of
          Inl err \<Rightarrow> (Inl err, ?R)
        | Inr complete \<Rightarrow>
            if complete then
              (Inr ?P, report ''bridges.tools.resource_already_exists'' ?R)
            else
              (case ?D of
                 (Inl err, w3) \<Rightarrow> (Inl err, w3)
               | (Inr u, w3) \<Rightarrow>
                   (Inr ?P, report ''bridges.tools.resource_downloaded'' w3)))"
      using get_resource_path_declared [of e config rs rname urls w] h by blast
    obtain r3 w3 where d: "?D = (r3, w3)"
      by (cases ?D) auto
    obtain ts3 evs3 where t3: "transfers w3 = transfers w @ ts3"
      and e3: "events w3 = events ?R @ ''bridges.tools.downloading_resource'' # evs3"
      using download_resource_files_extends
          [of e rname urls "report ''bridges.tools.downloading_resource'' ?R"] d
      by (auto simp add: resource_dir_ready_simps)
    have phase_eq: "?G = (case ?D of
                  (Inl err, w3) \<Rightarrow> (Inl err, w3)
                | (Inr x, w3) \<Rightarrow>
                    (Inr ?P, report ''bridges.tools.resource_downloaded'' w3))"
      if "is_resource_complete e ?R rname urls = Inr False"
      unfolding eq that by (simp only: sum.case if_False)
    have phase_snd: "transfers (snd ?G) = transfers w3
        \<and> ''bridges.tools.downloading_resource'' \<in> set (events (snd ?G))"
      if "is_resource_complete e ?R rname urls = Inr False"
      unfolding phase_eq [OF that] d using e3 by (cases r3) simp_all
    have yes: "?G = (Inr ?P, report ''bridges.tools.resource_already_exists'' ?R)"
      if "all_present e ?R rname urls"
    proof -
      have "is_resource_complete e ?R rname urls = Inr True"
        using that is_resource_complete_True by blast
      then show ?thesis
        unfolding eq by simp
    qed
    have no: "\<not> (fst ?G = Inr ?P \<and> transfers (snd ?G) = transfers w)"
      if np: "\<not> all_present e ?R rname urls"
    proof (cases "is_resource_complete e ?R rname urls")
      case (Inl err)
      then show ?thesis
        unfolding eq by simp
    next
      case (Inr complete)
      then have f: "is_resource_complete e ?R rname urls = Inr False"
        using np is_resource_complete_True [of e ?R rname urls] by auto
      obtain u us where urls: "urls = u # us"
        using h by (cases urls) auto
      show ?thesis
      proof (cases r3)
        case (Inl err)
        then show ?thesis
          unfolding phase_eq [OF f] d by simp
      next
        case ok: (Inr x)
        have dd: "download_resource_files e rname (u # us)
            (report ''bridges.tools.downloading_resource'' ?R) = (Inr x, w3)"
          using d unfolding ok urls .
        have "length (transfers (report ''bridges.tools.downloading_resource'' ?R))
            < length (transfers w3)"
          using dd by (rule download_resource_files_success_transfers)
        then have "transfers w3 \<noteq> transfers w"
          by (auto simp add: resource_dir_ready_simps)
        then show ?thesis
          using phase_snd [OF f] by simp
      qed
    qed
    have iff: "(fst ?G = Inr ?P \<and> transfers (snd ?G) = transfers w)
         = all_present e ?R rname urls"
      using yes no by (auto simp add: resource_dir_ready_simps)
    have missing: "?G = (case ?D of
                  (Inl err, w3) \<Rightarrow> (Inl err, w3)
                | (Inr x, w3) \<Rightarrow>
                    (Inr ?P, report ''bridges.tools.resource_downloaded'' w3))
             \<and> ''bridges.tools.downloading_resource'' \<in> set (events (snd ?G))
             \<and> (resource_file_name e (set_hugging_face_url e (hd urls)) \<noteq> None \<longrightarrow>
                  (\<exists>ts. transfers (snd ?G)
                          = transfers w @ set_hugging_face_url e (hd urls) # ts))"
      if m: "urls = pre @ u1 # post \<and> all_present e ?R rname pre
             \<and> resource_file_name e u1 = Some f1
             \<and> resource_missing_or_empty e ?R rname f1"
    proof -
      have f: "is_resource_complete e ?R rname urls = Inr False"
        using m is_resource_complete_missing [of e ?R rname pre u1 f1 post] by blast
      obtain u us where urls: "urls = u # us"
        using h by (cases urls) auto
      have start: "\<exists>ts. transfers (snd ?G)
                          = transfers w @ set_hugging_face_url e (hd urls) # ts"
        if parses: "resource_file_name e (set_hugging_face_url e (hd urls)) \<noteq> None"
      proof -
        obtain g where "resource_file_name e (set_hugging_face_url e u) = Some g"
          using parses urls by auto
        then obtain ts where "transfers (snd (download_resource_files e rname (u # us)
              (report ''bridges.tools.downloading_resource'' ?R)))
            = transfers (report ''bridges.tools.downloading_resource'' ?R)
                @ set_hugging_face_url e u # ts"
          using download_resource_files_starts by blast
        then have "transfers w3 = transfers w @ set_hugging_face_url e u # ts"
          using d unfolding urls by (simp add: resource_dir_ready_simps)
        then show ?thesis
          using phase_snd [OF f] urls by simp
      qed
      show ?thesis
        using phase_eq [OF f] phase_snd [OF f] start by blast
    qed
    have unparsed: "?G = (Inl UrlValueError, ?R) \<and> transfers (snd ?G) = transfers w"
      if m: "urls = pre @ u1 # post \<and> all_present e ?R rname pre
             \<and> resource_file_name e u1 = None"
    proof -
      have "is_resource_complete e ?R rname urls = Inl UrlValueError"
        using m is_resource_complete_unparsed [of e ?R rname pre u1 post] by blast
      then have "?G = (Inl UrlValueError, ?R)"
        unfolding eq by simp
      then show ?thesis
        by (simp add: resource_dir_ready_simps)
    qed
    have cases3: "all_present e ?R rname urls
            \<or> (\<exists>pre u1 post f1. urls = pre @ u1 # post \<and> all_present e ?R rname pre
                  \<and> resource_file_name e u1 = Some f1
                  \<and> resource_missing_or_empty e ?R rname f1)
            \<or> (\<exists>pre u1 post. urls = pre @ u1 # post \<and> all_present e ?R rname pre
                  \<and> resource_file_name e u1 = None)"
      by (rule is_resource_complete_cases)
    show "((fst ?G = Inr ?P \<and> transfers (snd ?G) = transfers w) = all_present e ?R rname urls)
        \<and> (all_present e ?R rname urls \<longrightarrow>
             ?G = (Inr ?P, report ''bridges.tools.resource_already_exists'' ?R))
        \<and> (urls = pre @ u1 # post \<and> all_present e ?R rname pre
             \<and> resource_file_name e u1 = Some f1
             \<and> resource_missing_or_empty e ?R rname f1 \<longrightarrow>
             ?G = (case ?D of
                  (Inl err, w3) \<Rightarrow> (Inl err, w3)
                | (Inr x, w3) \<Rightarrow>
                    (Inr ?P, report ''bridges.tools.resource_downloaded'' w3))
             \<and> ''bridges.tools.downloading_resource'' \<in> set (events (snd ?G))
             \<and> (resource_file_name e (set_hugging_face_url e (hd urls)) \<noteq> None \<longrightarrow>
                  (\<exists>ts. transfers (snd ?G)
                          = transfers w @ set_hugging_face_url e (hd urls) # ts)))
        \<and> (urls = pre @ u1 # post \<and> all_present e ?R rname pre
             \<and> resource_file_name e u1 = None \<longrightarrow>
             ?G = (Inl UrlValueError, ?R) \<and> transfers (snd ?G) = transfers w)
        \<and> (all_present e ?R rname urls
            \<or> (\<exists>pre u1 post f1. urls = pre @ u1 # post \<and> all_present e ?R rname pre
                  \<and> resource_file_name e u1 = Some f1
                  \<and> resource_missing_or_empty e ?R rname f1)
            \<or> (\<exists>pre u1 post. urls = pre @ u1 # post \<and> all_present e ?R rname pre
                  \<and> resource_file_name e u1 = None))"
      using iff yes missing unparsed cases3 by (intro conjI impI) blast+
  qed
  show ?thesis
    by (intro conjI) (fact c1 c2 c3 c4 c5)+
qed

theorem get_resource_path_completeness_witness:
  "resource_file_name example_env ''https://example.com/m/weights.bin?download=true''
     = Some ''weights.bin''
   \<and> get_resource_path example_env ''models'' complete_world
       = (Inr (bins_path example_env @ [''models'']),
          report ''bridges.tools.resource_already_exists''
            (resource_dir_ready ''models'' complete_world))
   \<and> transfers (snd (get_resource_path example_env ''models'' complete_world)) = []
   \<and> ''bridges.tools.downloading_resource''
       \<in> set (events (snd (get_resource_path example_env ''models'' empty_world)))
   \<and> (\<exists>ts. transfers (snd (get_resource_path example_env ''models'' empty_world))
            = ''https://example.com/m/weights.bin?download=true'' # ts)
   \<and> get_resource_path broken_env ''models'' partial_world
       = (Inl UrlValueError, resource_dir_ready ''models'' partial_world)
   \<and> resource_missing_or_empty slash_env (resource_dir_ready ''models'' complete_world)
        ''models'' [] = (dir_size slash_env (bins_path slash_env @ [''models'']) = 0)
   \<and> get_resource_path slash_env ''models'' complete_world
       = (Inr (bins_path slash_env @ [''models'']),
          report ''bridges.tools.resource_already_exists''
            (resource_dir_ready ''models'' complete_world))"
proof -
  let ?u1 = "''https://example.com/m/weights.bin?download=true''"
  let ?u2 = "''https://example.com/m/config.json''"
  let ?urls = "[?u1, ?u2]"
  let ?rs = "[(''models'', ?urls)]"
  let ?b1 = "''https://example.com/m/weights.bin''"
  let ?b2 = "''https://[example.com/m/vocab.txt''"
  let ?burls = "[?b1, ?b2, ?u2]"
  let ?brs = "[(''models'', ?burls)]"
  let ?s1 = "''https://example.com/m/''"
  let ?srs = "[(''models'', [?s1])]"
  have cfg: "load example_env (tool_config_name example_env) = Inr example_config"
    by code_simp
  have rs: "resources example_config = Some ?rs"
    by (simp add: example_config_def)
  have m: "map_of ?rs ''models'' = Some ?urls"
    by simp
  have ne: "?urls \<noteq> []"
    by (rule list.distinct(2))
  have fn: "resource_file_name example_env ?u1 = Some ''weights.bin''"
    by code_simp
  have yes: "all_present example_env (resource_dir_ready ''models'' complete_world)
      ''models'' ?urls"
    by code_simp
  have t0: "transfers complete_world = []" "transfers empty_world = []"
    by (simp_all add: complete_world_def empty_world_def)
  note inst = get_resource_path_completeness
      [where e = example_env and config = example_config and rs = ?rs and rname = "''models''"
        and urls = ?urls]
  have a: "get_resource_path example_env ''models'' complete_world
       = (Inr (bins_path example_env @ [''models'']),
          report ''bridges.tools.resource_already_exists''
            (resource_dir_ready ''models'' complete_world))"
    using inst [where w = complete_world] cfg rs m ne yes by blast
  have a2: "transfers (snd (get_resource_path example_env ''models'' complete_world))
      = transfers complete_world"
    using inst [where w = complete_world] cfg rs m ne yes by blast
  have split: "?urls = [] @ ?u1 # [?u2]"
    by simp
  have pre0: "all_present example_env (resource_dir_ready ''models'' empty_world) ''models'' []"
    by code_simp
  have miss: "resource_missing_or_empty example_env (resource_dir_ready ''models'' empty_world)
      ''models'' ''weights.bin''"
    by code_simp
  have adj: "set_hugging_face_url example_env (hd ?urls) = ?u1"
    by code_simp
  have parses: "resource_file_name example_env (set_hugging_face_url example_env (hd ?urls))
      \<noteq> None"
    by code_simp
  have b: "''bridges.tools.downloading_resource''
       \<in> set (events (snd (get_resource_path example_env ''models'' empty_world)))
      \<and> (\<exists>ts. transfers (snd (get_resource_path example_env ''models'' empty_world))
            = transfers empty_world @ set_hugging_face_url example_env (hd ?urls) # ts)"
    using inst [where w = empty_world and pre = "[]" and ?u1.0 = ?u1 and post = "[?u2]"
        and ?f1.0 = "''weights.bin''"]
      cfg rs m ne split pre0 fn miss parses
    by blast
  have b2: "\<exists>ts. transfers (snd (get_resource_path example_env ''models'' empty_world))
            = ?u1 # ts"
    using b unfolding adj t0(2) by (simp only: append_Nil)
  have bcfg: "load broken_env (tool_config_name broken_env) = Inr broken_config"
    by code_simp
  have brs: "resources broken_config = Some ?brs"
    by (simp add: broken_config_def)
  have bm: "map_of ?brs ''models'' = Some ?burls"
    by simp
  have bne: "?burls \<noteq> []"
    by (rule list.distinct(2))
  have bsplit: "?burls = [?b1] @ ?b2 # [?u2]"
    by simp
  have bpre: "all_present broken_env (resource_dir_ready ''models'' partial_world)
      ''models'' [?b1]"
    by code_simp
  have bnone: "resource_file_name broken_env ?b2 = None"
    by code_simp
  have c: "get_resource_path broken_env ''models'' partial_world
       = (Inl UrlValueError, resource_dir_ready ''models'' partial_world)"
    using get_resource_path_completeness
      [where e = broken_env and config = broken_config and rs = ?brs and rname = "''models''"
        and urls = ?burls and w = partial_world and pre = "[?b1]" and ?u1.0 = ?b2
        and post = "[?u2]"]
      bcfg brs bm bne bsplit bpre bnone
    by blast
  have scfg: "load slash_env (tool_config_name slash_env) = Inr slash_config"
    by code_simp
  have srs: "resources slash_config = Some ?srs"
    by (simp add: slash_config_def)
  have sm: "map_of ?srs ''models'' = Some [?s1]"
    by simp
  have sne: "[?s1] \<noteq> []"
    by (rule list.distinct(2))
  have syes: "all_present slash_env (resource_dir_ready ''models'' complete_world)
      ''models'' [?s1]"
    by code_simp
  have sdir: "bins_lookup (resource_dir_ready ''models'' complete_world) ''models''
      = Some (Dir [(''weights.bin'', 10), (''config.json'', 7)])"
    by code_simp
  have sin: "[] \<in> set [[], ''.'']"
    by simp
  note sinst = get_resource_path_completeness
      [where e = slash_env and config = slash_config and rs = ?srs and rname = "''models''"
        and urls = "[?s1]" and w = complete_world
        and cs = "[(''weights.bin'', 10), (''config.json'', 7)]" and f = "[]"]
  have d1: "resource_missing_or_empty slash_env (resource_dir_ready ''models'' complete_world)
        ''models'' [] = (dir_size slash_env (bins_path slash_env @ [''models'']) = 0)"
    using sinst sdir sin by blast
  have d2: "get_resource_path slash_env ''models'' complete_world
       = (Inr (bins_path slash_env @ [''models'']),
          report ''bridges.tools.resource_already_exists''
            (resource_dir_ready ''models'' complete_world))"
    using sinst scfg srs sm sne syes by blast
  have a3: "transfers (snd (get_resource_path example_env ''models'' complete_world)) = []"
    using a2 unfolding t0(1) .
  show ?thesis
    using fn a a3 b b2 c d1 d2 by blast
qed

text \<open>
  The claim as it was stated fails when a declared URL does not parse: the first file of
  the bundle is in place, the second URL makes the parser raise, and the third file is
  missing; the check raises instead of entering the download phase, and nothing is
  transferred.
\<close>

theorem get_resource_path_unparsed_counterexample:
  "resource_file_name broken_env ''https://example.com/m/config.json'' = Some ''config.json''
   \<and> resource_lookup partial_world ''models'' ''config.json'' = None
   \<and> fst (get_resource_path broken_env ''models'' partial_world) = Inl UrlValueError
   \<and> transfers (snd (get_resource_path broken_env ''models'' partial_world)) = []
   \<and> events (snd (get_resource_path broken_env ''models'' partial_world))
       = [''bridges.tools.checking_resource'']"
  by code_simp

text \<open>
  Claim C8. In the download phase of a bundle, when the files before a declared URL
  have been downloaded and the file of that URL is missing or empty after its
  transfer, the phase ends with the exception that names this file, the transfer of
  this file is the last one (no later file is attempted), and \<open>get_resource_path\<close>
  raises the same exception.
\<close>

theorem download_resource_files_fail_fast:
  "(download_resource_files e r pre w = (Inr (), w1)
     \<and> resource_file_name e (set_hugging_face_url e u) = Some f
     \<and> resource_missing_or_empty e
          (snd (download_resource_file e r (set_hugging_face_url e u) f
                  (report ''bridges.tools.downloading_resource_file'' w1))) r f
     \<longrightarrow> (\<exists>err. fst (download_resource_files e r (pre @ u # post) w)
                   = Inl (ResourceFileDownloadFailed f err))
         \<and> transfers (snd (download_resource_files e r (pre @ u # post) w))
             = transfers w1 @ [set_hugging_face_url e u])
   \<and> (load e (tool_config_name e) = Inr config \<and> resources config = Some rs
        \<and> map_of rs rname = Some urls \<and> urls \<noteq> []
        \<and> is_resource_complete e (resource_dir_ready rname w) rname urls = Inr False
        \<and> fst (download_resource_files e rname urls
                 (report ''bridges.tools.downloading_resource'' (resource_dir_ready rname w)))
            = Inl failure
     \<longrightarrow> get_resource_path e rname w
           = (Inl failure,
              snd (download_resource_files e rname urls
                     (report ''bridges.tools.downloading_resource''
                        (resource_dir_ready rname w)))))"
proof -
  have c1: "download_resource_files e r pre w = (Inr (), w1)
     \<and> resource_file_name e (set_hugging_face_url e u) = Some f
     \<and> resource_missing_or_empty e
          (snd (download_resource_file e r (set_hugging_face_url e u) f
                  (report ''bridges.tools.downloading_resource_file'' w1))) r f
     \<longrightarrow> (\<exists>err. fst (download_resource_files e r (pre @ u # post) w)
                   = Inl (ResourceFileDownloadFailed f err))
         \<and> transfers (snd (download_resource_files e r (pre @ u # post) w))
             = transfers w1 @ [set_hugging_face_url e u]"
  proof (intro impI)
    let ?adj = "set_hugging_face_url e u"
    let ?w1 = "report ''bridges.tools.downloading_resource_file'' w1"
    assume h: "download_resource_files e r pre w = (Inr (), w1)
     \<and> resource_file_name e ?adj = Some f
     \<and> resource_missing_or_empty e (snd (download_resource_file e r ?adj f ?w1)) r f"
    obtain r1 w2 where d: "download_resource_file e r ?adj f ?w1 = (r1, w2)"
      by (cases "download_resource_file e r ?adj f ?w1") auto
    obtain err where err: "r1 = Inl err"
      using download_resource_file_empty [of e r ?adj f ?w1] h d by auto
    have t2: "transfers w2 = transfers w1 @ [?adj]"
      using download_resource_file_transfers [of e r ?adj f ?w1] d by simp
    have one: "download_resource_files e r (u # post) w1 =
        (Inl (ResourceFileDownloadFailed f err),
         report ''bridges.tools.resource_file_download_failed'' w2)"
      using h d err by (simp add: Let_def)
    have all: "download_resource_files e r (pre @ u # post) w =
        (Inl (ResourceFileDownloadFailed f err),
         report ''bridges.tools.resource_file_download_failed'' w2)"
      using download_resource_files_append [of e r pre "u # post" w] h one
      by (simp only: prod.case sum.case)
    show "(\<exists>err. fst (download_resource_files e r (pre @ u # post) w)
                   = Inl (ResourceFileDownloadFailed f err))
         \<and> transfers (snd (download_resource_files e r (pre @ u # post) w))
             = transfers w1 @ [?adj]"
      unfolding all using t2 by simp
  qed
  have c2: "load e (tool_config_name e) = Inr config \<and> resources config = Some rs
        \<and> map_of rs rname = Some urls \<and> urls \<noteq> []
        \<and> is_resource_complete e (resource_dir_ready rname w) rname urls = Inr False
        \<and> fst (download_resource_files e rname urls
                 (report ''bridges.tools.downloading_resource'' (resource_dir_ready rname w)))
            = Inl failure
     \<longrightarrow> get_resource_path e rname w
           = (Inl failure,
              snd (download_resource_files e rname urls
                     (report ''bridges.tools.downloading_resource''
                        (resource_dir_ready rname w))))"
  proof (intro impI)
    let ?D = "download_resource_files e rname urls
        (report ''bridges.tools.downloading_resource'' (resource_dir_ready rname w))"
    assume h: "load e (tool_config_name e) = Inr config \<and> resources config = Some rs
        \<and> map_of rs rname = Some urls \<and> urls \<noteq> []
        \<and> is_resource_complete e (resource_dir_ready rname w) rname urls = Inr False
        \<and> fst ?D = Inl failure"
    obtain wD where d: "?D = (Inl failure, wD)"
      using h by (cases ?D) auto
    have inc: "is_resource_complete e (resource_dir_ready rname w) rname urls = Inr False"
      using h by blast
    have h1: "load e (tool_config_name e) = Inr config" and h2: "resources config = Some rs"
      and h3: "map_of rs rname = Some urls" and h4: "urls \<noteq> []"
      using h by blast+
    have "get_resource_path e rname w =
        (case ?D of (Inl err, w3) \<Rightarrow> (Inl err, w3)
         | (Inr u, w3) \<Rightarrow>
             (Inr (bins_path e @ [rname]), report ''bridges.tools.resource_downloaded'' w3))"
      unfolding get_resource_path_declared [of e config rs rname urls w, OF h1 h2 h3 h4] inc
      by (simp only: sum.case if_False)
    then show "get_resource_path e rname w = (Inl failure, snd ?D)"
      unfolding d by simp
  qed
  show ?thesis
    by (intro conjI) (fact c1 c2)+
qed

theorem download_resource_files_fail_fast_witness:
  "(\<exists>err. fst (download_resource_files truncating_env ''models''
              [''https://example.com/m/weights.bin?download=true'',
               ''https://example.com/m/config.json'']
              (report ''bridges.tools.downloading_resource''
                 (resource_dir_ready ''models'' empty_world)))
           = Inl (ResourceFileDownloadFailed ''config.json'' err))
   \<and> transfers (snd (download_resource_files truncating_env ''models''
              [''https://example.com/m/weights.bin?download=true'',
               ''https://example.com/m/config.json'']
              (report ''bridges.tools.downloading_resource''
                 (resource_dir_ready ''models'' empty_world))))
       = [''https://example.com/m/weights.bin?download=true'',
          ''https://example.com/m/config.json'']
   \<and> fst (get_resource_path offline_env ''models'' empty_world)
       = Inl (ResourceFileDownloadFailed ''weights.bin'' EmptyDownload)"
proof -
  let ?u1 = "''https://example.com/m/weights.bin?download=true''"
  let ?u2 = "''https://example.com/m/config.json''"
  let ?rs = "[(''models'', [?u1, ?u2])]"
  let ?W = "report ''bridges.tools.downloading_resource''
      (resource_dir_ready ''models'' empty_world)"
  let ?w1 = "snd (download_resource_files truncating_env ''models'' [?u1] ?W)"
  have pre: "download_resource_files truncating_env ''models'' [?u1] ?W = (Inr (), ?w1)"
  proof -
    have "fst (download_resource_files truncating_env ''models'' [?u1] ?W) = Inr ()"
      by code_simp
    then show ?thesis
      by (cases "download_resource_files truncating_env ''models'' [?u1] ?W") (simp only: fst_conv snd_conv)
  qed
  have adj: "set_hugging_face_url truncating_env ?u2 = ?u2"
    by code_simp
  have fn: "resource_file_name truncating_env (set_hugging_face_url truncating_env ?u2)
      = Some ''config.json''"
    by code_simp
  have empty: "resource_missing_or_empty truncating_env
      (snd (download_resource_file truncating_env ''models''
              (set_hugging_face_url truncating_env ?u2) ''config.json''
              (report ''bridges.tools.downloading_resource_file'' ?w1))) ''models'' ''config.json''"
    by code_simp
  have t1: "transfers ?w1 = [?u1]"
    by code_simp
  have l: "[?u1] @ ?u2 # [] = [?u1, ?u2]"
    by (simp only: append.simps)
  have a: "(\<exists>err. fst (download_resource_files truncating_env ''models'' ([?u1] @ ?u2 # []) ?W)
                   = Inl (ResourceFileDownloadFailed ''config.json'' err))
         \<and> transfers (snd (download_resource_files truncating_env ''models''
                ([?u1] @ ?u2 # []) ?W))
             = transfers ?w1 @ [set_hugging_face_url truncating_env ?u2]"
    using download_resource_files_fail_fast
      [where e = truncating_env and r = "''models''" and pre = "[?u1]" and w = ?W
        and ?w1.0 = ?w1 and u = ?u2 and f = "''config.json''" and post = "[]"]
      pre fn empty
    by blast
  have a1: "\<exists>err. fst (download_resource_files truncating_env ''models'' [?u1, ?u2] ?W)
                   = Inl (ResourceFileDownloadFailed ''config.json'' err)"
    using a unfolding l by (rule conjunct1)
  have a2: "transfers (snd (download_resource_files truncating_env ''models'' [?u1, ?u2] ?W))
      = [?u1, ?u2]"
    using a unfolding l t1 adj by (simp only: append.simps)
  have cfg: "load offline_env (tool_config_name offline_env) = Inr example_config"
    by code_simp
  have rs: "resources example_config = Some ?rs"
    by (simp add: example_config_def)
  have m: "map_of ?rs ''models'' = Some [?u1, ?u2]"
    by simp
  have ne: "[?u1, ?u2] \<noteq> []"
    by (rule list.distinct(2))
  have inc: "is_resource_complete offline_env (resource_dir_ready ''models'' empty_world)
      ''models'' [?u1, ?u2] = Inr False"
    by code_simp
  have fl: "fst (download_resource_files offline_env ''models'' [?u1, ?u2] ?W)
      = Inl (ResourceFileDownloadFailed ''weights.bin'' EmptyDownload)"
    by code_simp
  have b: "get_resource_path offline_env ''models'' empty_world
      = (Inl (ResourceFileDownloadFailed ''weights.bin'' EmptyDownload),
         snd (download_resource_files offline_env ''models'' [?u1, ?u2] ?W))"
    using download_resource_files_fail_fast
      [where e = offline_env and config = example_config and rs = ?rs and rname = "''models''"
        and urls = "[?u1, ?u2]" and w = empty_world
        and failure = "ResourceFileDownloadFailed ''weights.bin'' EmptyDownload"]
      cfg rs m ne inc fl
    by blast
  have b1: "fst (get_resource_path offline_env ''models'' empty_world)
       = Inl (ResourceFileDownloadFailed ''weights.bin'' EmptyDownload)"
    unfolding b by (rule fst_conv)
  show ?thesis
    using a1 a2 b1 by (intro conjI)
qed

end
